theory Spec2Isabelle
  imports Complex_Main
begin

section \<open>JavaScript values reaching the handlers\<close>

text \<open>
  The handlers of \<^verbatim>\<open>netlify/functions/analyzeListing.js\<close> (one image), of the
  multi-image variant and of \<^verbatim>\<open>functions/index.js\<close> work on values that
  \<^verbatim>\<open>JSON.parse\<close> returned. A JavaScript number is \<open>NaN\<close>, an infinity or a finite
  double; finite doubles are rationals, and the only arithmetic the handlers do on them
  (\<^verbatim>\<open>Math.min\<close>, \<^verbatim>\<open>Math.max\<close>, the test for falsiness) is exact, so a finite number
  is modelled by its rational value (\<open>-0\<close> and \<open>0\<close> are both \<open>Fin 0\<close>: both are falsy).
  A string is the list of its code units, written as a \<open>char list\<close>.
\<close>

datatype jsnum = NaN | PosInf | NegInf | Fin rat

datatype json =
    JNull
  | JBool bool
  | JNum jsnum
  | JStr string
  | JArr "json list"
  | JObj "(string \<times> json) list"

text \<open>
  \<open>JObj kvs\<close> lists the members in the order of the source text; where a key is
  repeated, the later member is the object's property, as \<^verbatim>\<open>JSON.parse\<close> has it.
  A value read from a property is a \<open>json option\<close>; \<open>None\<close> is \<^verbatim>\<open>undefined\<close>.
\<close>

datatype js_error = TypeError | ProviderError string

text \<open>
  The built-in conversions the handlers call but do not define: \<^verbatim>\<open>JSON.parse\<close>
  (\<open>None\<close> where it throws), the text of a number (\<^verbatim>\<open>Number.prototype.toString\<close>) and
  the number of a text (\<^verbatim>\<open>Number\<close> applied to a string). They are parameters of the
  model.
\<close>

record js_runtime =
  JSON_parse :: "string \<Rightarrow> json option"
  Number_toString :: "jsnum \<Rightarrow> string"
  StringToNumber :: "string \<Rightarrow> jsnum"

definition own_property :: "(string \<times> json) list \<Rightarrow> string \<Rightarrow> json option" where
  "own_property kvs k = map_of (rev kvs) k"

text \<open>
  \<^verbatim>\<open>v.k\<close> for a key \<open>k\<close> that no prototype defines (the handlers read only
  \<^verbatim>\<open>vehicle_title\<close>, \<^verbatim>\<open>lens_score\<close>, \<^verbatim>\<open>summary\<close>, \<^verbatim>\<open>market_value_estimate\<close>,
  \<^verbatim>\<open>red_flags\<close>, \<^verbatim>\<open>questions_to_ask\<close>, \<^verbatim>\<open>imageBase64\<close>, \<^verbatim>\<open>imagesBase64\<close>,
  \<^verbatim>\<open>images\<close> and \<^verbatim>\<open>mimeType\<close> this way): reading a property of \<^verbatim>\<open>null\<close> throws,
  a primitive or an array has no such property.
\<close>

fun get_prop :: "json \<Rightarrow> string \<Rightarrow> js_error + json option" where
  "get_prop JNull k = Inl TypeError"
| "get_prop (JObj kvs) k = Inr (own_property kvs k)"
| "get_prop v k = Inr None"

fun truthy :: "json option \<Rightarrow> bool" where
  "truthy None = False"
| "truthy (Some JNull) = False"
| "truthy (Some (JBool b)) = b"
| "truthy (Some (JNum n)) = (n \<noteq> NaN \<and> n \<noteq> Fin 0)"
| "truthy (Some (JStr s)) = (s \<noteq> [])"
| "truthy (Some (JArr xs)) = True"
| "truthy (Some (JObj kvs)) = True"

text \<open>\<^verbatim>\<open>v || d\<close> with a default \<open>d\<close> that is a value.\<close>

definition js_or :: "json option \<Rightarrow> json \<Rightarrow> json" where
  "js_or v d = (case v of None \<Rightarrow> d | Some x \<Rightarrow> if truthy (Some x) then x else d)"

text \<open>\<^verbatim>\<open>n || d\<close> on numbers: \<open>NaN\<close> and zero are falsy.\<close>

definition num_or :: "jsnum \<Rightarrow> jsnum \<Rightarrow> jsnum" where
  "num_or n d = (if n = NaN \<or> n = Fin 0 then d else n)"

definition bind_err :: "js_error + 'a \<Rightarrow> ('a \<Rightarrow> js_error + 'b) \<Rightarrow> js_error + 'b" where
  "bind_err m f = (case m of Inl e \<Rightarrow> Inl e | Inr x \<Rightarrow> f x)"

text \<open>
  \<^verbatim>\<open>String(v)\<close>. An array is joined with commas, \<^verbatim>\<open>null\<close> elements giving the empty
  text. An object is converted by the method found under \<^verbatim>\<open>toString\<close>: the inherited
  one answers \<^verbatim>\<open>[object Object]\<close>; an own member of that name, which after
  \<^verbatim>\<open>JSON.parse\<close> is never a function, hides it, and then \<^verbatim>\<open>valueOf\<close> (inherited:
  returns the object; own: not a function) gives no primitive either, so the conversion
  throws a \<^verbatim>\<open>TypeError\<close>.
\<close>

fun ToString :: "js_runtime \<Rightarrow> json \<Rightarrow> js_error + string"
  and join :: "js_runtime \<Rightarrow> json list \<Rightarrow> js_error + string"
where
  "ToString rt JNull = Inr ''null''"
| "ToString rt (JBool b) = Inr (if b then ''true'' else ''false'')"
| "ToString rt (JNum n) = Inr (Number_toString rt n)"
| "ToString rt (JStr s) = Inr s"
| "ToString rt (JArr xs) = join rt xs"
| "ToString rt (JObj kvs) =
     (if own_property kvs ''toString'' = None then Inr ''[object Object]''
      else Inl TypeError)"
| "join rt [] = Inr []"
| "join rt [x] = (if x = JNull then Inr [] else ToString rt x)"
| "join rt (x # y # ys) =
     bind_err (if x = JNull then Inr [] else ToString rt x) (\<lambda>s.
     bind_err (join rt (y # ys)) (\<lambda>t. Inr (s @ '','' @ t)))"

text \<open>
  \<^verbatim>\<open>v.toString()\<close>: on \<^verbatim>\<open>null\<close> the property read throws; on every other value
  of \<^verbatim>\<open>JSON.parse\<close> the method found is the one \<^verbatim>\<open>String(v)\<close> ends up calling, or
  is not a function.
\<close>

definition toString_call :: "js_runtime \<Rightarrow> json \<Rightarrow> js_error + string" where
  "toString_call rt v = (if v = JNull then Inl TypeError else ToString rt v)"

text \<open>
  \<^verbatim>\<open>Number(v)\<close>. An array or object is first made primitive: \<^verbatim>\<open>valueOf\<close> gives no
  primitive (see above), so the text of \<^verbatim>\<open>toString\<close> is converted.
\<close>

fun ToNumber :: "js_runtime \<Rightarrow> json option \<Rightarrow> js_error + jsnum" where
  "ToNumber rt None = Inr NaN"
| "ToNumber rt (Some JNull) = Inr (Fin 0)"
| "ToNumber rt (Some (JBool b)) = Inr (Fin (if b then 1 else 0))"
| "ToNumber rt (Some (JNum n)) = Inr n"
| "ToNumber rt (Some (JStr s)) = Inr (StringToNumber rt s)"
| "ToNumber rt (Some v) = bind_err (ToString rt v) (\<lambda>s. Inr (StringToNumber rt s))"

text \<open>\<^verbatim>\<open>xs.map(String)\<close>: every element is converted, in order; the first throw ends it.\<close>

fun map_String :: "js_runtime \<Rightarrow> json list \<Rightarrow> js_error + string list" where
  "map_String rt [] = Inr []"
| "map_String rt (x # xs) =
     bind_err (ToString rt x) (\<lambda>s.
     bind_err (map_String rt xs) (\<lambda>ss. Inr (s # ss)))"

section \<open>\<^verbatim>\<open>clamp\<close>\<close>

fun Math_min :: "jsnum \<Rightarrow> jsnum \<Rightarrow> jsnum" where
  "Math_min NaN b = NaN"
| "Math_min a NaN = NaN"
| "Math_min NegInf b = NegInf"
| "Math_min a NegInf = NegInf"
| "Math_min PosInf b = b"
| "Math_min a PosInf = a"
| "Math_min (Fin a) (Fin b) = Fin (min a b)"

fun Math_max :: "jsnum \<Rightarrow> jsnum \<Rightarrow> jsnum" where
  "Math_max NaN b = NaN"
| "Math_max a NaN = NaN"
| "Math_max PosInf b = PosInf"
| "Math_max a PosInf = PosInf"
| "Math_max NegInf b = b"
| "Math_max a NegInf = a"
| "Math_max (Fin a) (Fin b) = Fin (max a b)"

definition clamp :: "jsnum \<Rightarrow> jsnum \<Rightarrow> jsnum \<Rightarrow> jsnum" where
  "clamp n mn mx = Math_max mn (Math_min mx n)"

section \<open>The normalisation block (\<^verbatim>\<open>cleaned\<close>)\<close>

record ListingReport =
  vehicle_title :: string
  lens_score :: jsnum
  summary :: string
  market_value_estimate :: string
  red_flags :: "string list"
  questions_to_ask :: "string list"

text \<open>\<^verbatim>\<open>(report.k || dflt).toString().slice(0, n)\<close>\<close>

definition text_field :: "js_runtime \<Rightarrow> json \<Rightarrow> string \<Rightarrow> string \<Rightarrow> nat \<Rightarrow> js_error + string" where
  "text_field rt report k dflt n =
     bind_err (get_prop report k) (\<lambda>v.
     bind_err (toString_call rt (js_or v (JStr dflt))) (\<lambda>s. Inr (take n s)))"

text \<open>\<^verbatim>\<open>clamp(Number(report.lens_score) || 50, 0, 100)\<close>\<close>

definition score_field :: "js_runtime \<Rightarrow> json \<Rightarrow> js_error + jsnum" where
  "score_field rt report =
     bind_err (get_prop report ''lens_score'') (\<lambda>v.
     bind_err (ToNumber rt v) (\<lambda>n. Inr (clamp (num_or n (Fin 50)) (Fin 0) (Fin 100))))"

text \<open>\<^verbatim>\<open>Array.isArray(report.k) ? report.k.map(String).slice(0, 8) : []\<close>\<close>

definition list_field :: "js_runtime \<Rightarrow> json \<Rightarrow> string \<Rightarrow> js_error + string list" where
  "list_field rt report k =
     bind_err (get_prop report k) (\<lambda>v.
       case v of
         Some (JArr xs) \<Rightarrow> bind_err (map_String rt xs) (\<lambda>ss. Inr (take 8 ss))
       | _ \<Rightarrow> Inr [])"

definition canned_questions :: "string list" where
  "canned_questions =
     [''Can you confirm the service history and provide receipts/logbook photos?'',
      ''Any accidents, repairs, paintwork, flood/hail damage, or insurance claims?'',
      ''Is there finance owing, and can we do a PPSR check / clear title confirmation?'']"

text \<open>The statement after the object literal: fewer than 3 questions are topped up.\<close>

definition backfill :: "string list \<Rightarrow> string list" where
  "backfill qs = (if length qs < 3 then take 8 (qs @ canned_questions) else qs)"

text \<open>
  The object literal \<^verbatim>\<open>cleaned\<close> evaluates its members in order, and any of them can
  throw; then the questions are topped up. \<open>Inl\<close> is the exception that leaves the block.
\<close>

definition cleaned :: "js_runtime \<Rightarrow> json \<Rightarrow> js_error + ListingReport" where
  "cleaned rt report =
     bind_err (text_field rt report ''vehicle_title'' ''Unknown Vehicle'' 120) (\<lambda>vt.
     bind_err (score_field rt report) (\<lambda>ls.
     bind_err (text_field rt report ''summary'' ''No summary returned.'' 500) (\<lambda>sm.
     bind_err (text_field rt report ''market_value_estimate'' ''Unknown'' 80) (\<lambda>mv.
     bind_err (list_field rt report ''red_flags'') (\<lambda>rf.
     bind_err (list_field rt report ''questions_to_ask'') (\<lambda>qs.
       Inr \<lparr> vehicle_title = vt, lens_score = ls, summary = sm,
             market_value_estimate = mv, red_flags = rf,
             questions_to_ask = backfill qs \<rparr>))))))"

text \<open>The object \<^verbatim>\<open>cleaned\<close> as a value, as a second run of the block would read it.\<close>

definition report_json :: "ListingReport \<Rightarrow> json" where
  "report_json r =
     JObj [(''vehicle_title'', JStr (vehicle_title r)),
           (''lens_score'', JNum (lens_score r)),
           (''summary'', JStr (summary r)),
           (''market_value_estimate'', JStr (market_value_estimate r)),
           (''red_flags'', JArr (map JStr (red_flags r))),
           (''questions_to_ask'', JArr (map JStr (questions_to_ask r)))]"

section \<open>\<^verbatim>\<open>extractJson\<close>\<close>

text \<open>\<^verbatim>\<open>text.indexOf(c)\<close> and \<^verbatim>\<open>text.lastIndexOf(c)\<close>; \<open>None\<close> is the result \<open>-1\<close>.\<close>

fun indexOf :: "string \<Rightarrow> char \<Rightarrow> nat option" where
  "indexOf [] c = None"
| "indexOf (x # xs) c = (if x = c then Some 0 else map_option Suc (indexOf xs c))"

definition lastIndexOf :: "string \<Rightarrow> char \<Rightarrow> nat option" where
  "lastIndexOf s c = map_option (\<lambda>i. length s - 1 - i) (indexOf (rev s) c)"

text \<open>\<^verbatim>\<open>s.slice(a, b)\<close> for indices that are not negative.\<close>

definition slice :: "'a list \<Rightarrow> nat \<Rightarrow> nat \<Rightarrow> 'a list" where
  "slice s a b = take (b - a) (drop a s)"

text \<open>
  \<^verbatim>\<open>candidate\<close>: the text from the first \<^verbatim>\<open>{\<close> to the last \<^verbatim>\<open>}\<close>, both
  included, where both exist and the first comes before the last.
\<close>

definition candidate :: "string \<Rightarrow> string option" where
  "candidate text =
     (case (indexOf text (CHR ''{''), lastIndexOf text (CHR ''}'')) of
        (Some start, Some en) \<Rightarrow> if en > start then Some (slice text start (en + 1)) else None
      | _ \<Rightarrow> None)"

text \<open>
  The function returns \<^verbatim>\<open>null\<close> for the empty text, the value of the whole text
  where that parses, else the value of the candidate where there is one and it parses,
  else \<^verbatim>\<open>null\<close>.
\<close>

definition extractJson :: "js_runtime \<Rightarrow> string \<Rightarrow> json" where
  "extractJson rt text =
     (if text = [] then JNull
      else case JSON_parse rt text of
        Some v \<Rightarrow> v
      | None \<Rightarrow>
          (case candidate text of
             None \<Rightarrow> JNull
           | Some c \<Rightarrow> (case JSON_parse rt c of Some v \<Rightarrow> v | None \<Rightarrow> JNull)))"

section \<open>The Netlify handlers\<close>

text \<open>
  \<^verbatim>\<open>response(statusCode, bodyObj)\<close>: the headers are the same in every response and
  left out; the body objects the handlers build are the constructors of \<open>body\<close>.
\<close>

datatype body =
    Ok_true
  | Error_only string
  | Error_raw string string
  | Error_message string js_error
  | Data ListingReport

record response =
  statusCode :: nat
  body :: body

definition response :: "nat \<Rightarrow> body \<Rightarrow> response" where
  "response code bodyObj = \<lparr> statusCode = code, body = bodyObj \<rparr>"

record event =
  httpMethod :: string
  event_body :: "string option"

text \<open>
  What a run of a handler leaves behind: the response it resolves to, or the exception it
  rejects with when a throw happens outside its \<^verbatim>\<open>try\<close>, and the calls it made to the
  model provider (\<^verbatim>\<open>client.responses.create\<close>), each recorded by the image URLs sent.
  The provider is a parameter: from the image URLs to the \<^verbatim>\<open>output_text\<close> of its
  reply (\<open>None\<close> where the reply has none), or the exception it throws.
\<close>

record run =
  outcome :: "js_error + response"
  gateway_calls :: "string list list"

type_synonym gateway = "string list \<Rightarrow> js_error + string option"

definition no_call :: "js_error + response \<Rightarrow> run" where
  "no_call out = \<lparr> outcome = out, gateway_calls = [] \<rparr>"

text \<open>
  From \<^verbatim>\<open>const report = extractJson(outText)\<close> to \<^verbatim>\<open>return response(200, ...)\<close>,
  the same text in both handlers. A throw of the block is caught by the handler's
  \<^verbatim>\<open>catch\<close>, which answers 500.
\<close>

definition respond_output :: "js_runtime \<Rightarrow> string \<Rightarrow> response" where
  "respond_output rt outText =
     (let report = extractJson rt outText in
      if \<not> truthy (Some report) then
        response 502 (Error_raw ''Model returned non-JSON output'' (slice outText 0 2000))
      else case cleaned rt report of
        Inr c \<Rightarrow> response 200 (Data c)
      | Inl err \<Rightarrow> response 500 (Error_message ''Analysis failed'' err))"

text \<open>The \<^verbatim>\<open>try\<close> block: the call of the provider and what follows it.\<close>

definition call_model :: "js_runtime \<Rightarrow> gateway \<Rightarrow> string list \<Rightarrow> run" where
  "call_model rt gw urls =
     \<lparr> outcome =
         Inr (case gw urls of
                Inl err \<Rightarrow> response 500 (Error_message ''Analysis failed'' err)
              | Inr output_text \<Rightarrow>
                  respond_output rt (case output_text of None \<Rightarrow> [] | Some t \<Rightarrow> t)),
       gateway_calls = [urls] \<rparr>"

text \<open>
  The checks both handlers start with: the method, the key (\<open>key\<close> is
  \<^verbatim>\<open>process.env.OPENAI_API_KEY\<close>) and the body, \<^verbatim>\<open>JSON.parse(event.body || "{}")\<close>.
  \<open>Inr payload\<close> lets the handler go on.
\<close>

definition parse_payload ::
  "js_runtime \<Rightarrow> string option \<Rightarrow> string \<Rightarrow> event \<Rightarrow> response + json" where
  "parse_payload rt key missing_key ev =
     (if httpMethod ev = ''OPTIONS'' then Inl (response 200 Ok_true)
      else if httpMethod ev \<noteq> ''POST'' then Inl (response 405 (Error_only ''Method Not Allowed''))
      else if key = None \<or> key = Some [] then Inl (response 500 (Error_only missing_key))
      else case JSON_parse rt
                  (case event_body ev of None \<Rightarrow> ''{}'' | Some b \<Rightarrow> if b = [] then ''{}'' else b) of
        None \<Rightarrow> Inl (response 400 (Error_only ''Invalid JSON body''))
      | Some payload \<Rightarrow> Inr payload)"

text \<open>The handler of \<^verbatim>\<open>netlify/functions/analyzeListing.js\<close>: one image.\<close>

definition handler_single :: "js_runtime \<Rightarrow> gateway \<Rightarrow> string option \<Rightarrow> event \<Rightarrow> run" where
  "handler_single rt gw key ev =
     (case parse_payload rt key ''Missing OPENAI_API_KEY in environment variables'' ev of
        Inl r \<Rightarrow> no_call (Inr r)
      | Inr payload \<Rightarrow>
          (case get_prop payload ''imageBase64'' of
             Inl err \<Rightarrow> no_call (Inl err)
           | Inr imageBase64 \<Rightarrow>
               (case get_prop payload ''mimeType'' of
                  Inl err \<Rightarrow> no_call (Inl err)
                | Inr mt \<Rightarrow>
                    (let mimeType = js_or mt (JStr ''image/jpeg'') in
                     case imageBase64 of
                       Some (JStr img) \<Rightarrow>
                         if img = [] then
                           no_call (Inr (response 400 (Error_only ''imageBase64 is required'')))
                         else if length img > 12000000 then
                           no_call (Inr (response 413
                             (Error_only ''Image too large. Use a smaller screenshot.'')))
                         else
                           (case ToString rt mimeType of
                              Inl err \<Rightarrow> no_call (Inl err)
                            | Inr m \<Rightarrow>
                                call_model rt gw [''data:'' @ m @ '';base64,'' @ img])
                     | _ \<Rightarrow>
                         no_call (Inr (response 400 (Error_only ''imageBase64 is required'')))))))"

text \<open>
  The loop \<^verbatim>\<open>for (const img of imagesBase64)\<close> of the multi-image handler: the first
  element that is not a string, or is too long, ends the handler with its response;
  \<open>Inr\<close> carries the images when the loop runs to its end.
\<close>

fun size_guard :: "json list \<Rightarrow> response + string list" where
  "size_guard [] = Inr []"
| "size_guard (JStr img # rest) =
     (if length img > 12000000 then
        Inl (response 413 (Error_only ''One of the images is too large.''))
      else case size_guard rest of Inl r \<Rightarrow> Inl r | Inr imgs \<Rightarrow> Inr (img # imgs))"
| "size_guard (v # rest) = Inl (response 400 (Error_only ''All images must be base64 strings''))"

text \<open>
  The multi-image handler (it uses \<^verbatim>\<open>response\<close>, \<^verbatim>\<open>clamp\<close> and \<^verbatim>\<open>extractJson\<close>
  of the file above).
\<close>

definition handler_multi :: "js_runtime \<Rightarrow> gateway \<Rightarrow> string option \<Rightarrow> event \<Rightarrow> run" where
  "handler_multi rt gw key ev =
     (case parse_payload rt key ''Missing OPENAI_API_KEY'' ev of
        Inl r \<Rightarrow> no_call (Inr r)
      | Inr payload \<Rightarrow>
          (case get_prop payload ''imagesBase64'' of
             Inl err \<Rightarrow> no_call (Inl err)
           | Inr (Some (JArr imagesBase64)) \<Rightarrow>
               if length imagesBase64 = 0 then
                 no_call (Inr (response 400 (Error_only ''imagesBase64 must be a non-empty array'')))
               else if length imagesBase64 > 4 then
                 no_call (Inr (response 400 (Error_only ''Maximum 4 images allowed'')))
               else
                 (case size_guard imagesBase64 of
                    Inl r \<Rightarrow> no_call (Inr r)
                  | Inr imgs \<Rightarrow>
                      call_model rt gw (map (\<lambda>b64. ''data:image/jpeg;base64,'' @ b64) imgs))
           | Inr _ \<Rightarrow>
               no_call (Inr (response 400 (Error_only ''imagesBase64 must be a non-empty array'')))))"

section \<open>The Firebase callable (\<^verbatim>\<open>functions/index.js\<close>)\<close>

text \<open>\<^verbatim>\<open>s.trim()\<close>, on the white space and line terminators that fit a \<open>char\<close>.\<close>

definition js_ws :: "char \<Rightarrow> bool" where
  "js_ws c = ((of_char c :: nat) \<in> {9, 10, 11, 12, 13, 32, 160})"

definition trim :: "string \<Rightarrow> string" where
  "trim s = rev (dropWhile js_ws (rev (dropWhile js_ws s)))"

text \<open>\<^verbatim>\<open>s.replace(/pat/g, '')\<close> for a pattern that is a plain text.\<close>

function replace_all :: "string \<Rightarrow> string \<Rightarrow> string" where
  "replace_all pat s =
     (if s = [] \<or> pat = [] then s
      else if take (length pat) s = pat then replace_all pat (drop (length pat) s)
      else hd s # replace_all pat (tl s))"
  by pat_completeness auto
termination
  by (relation "measure (\<lambda>(pat, s). length s)") auto

text \<open>
  \<open>Returned d\<close> is the value \<^verbatim>\<open>{ success: true, data: d }\<close>; \<open>HttpsError code\<close> is
  the error the callable throws on purpose; \<open>Uncaught e\<close> is a throw outside its
  \<^verbatim>\<open>try\<close>. The provider (\<^verbatim>\<open>model.generateContent\<close> and \<^verbatim>\<open>response.text()\<close>)
  is a parameter, from the images sent to the text of the reply or the exception thrown.
\<close>

datatype callable_result = Returned json | HttpsError string | Uncaught js_error

record callable_run =
  result :: callable_result
  model_calls :: "json list list"

type_synonym gemini = "json list \<Rightarrow> js_error + string"

text \<open>
  The \<^verbatim>\<open>try\<close> block. \<^verbatim>\<open>images.forEach\<close> is a function only on an array; on any
  other value the call throws and the \<^verbatim>\<open>catch\<close> turns it into \<^verbatim>\<open>internal\<close>.
\<close>

definition generate :: "js_runtime \<Rightarrow> gemini \<Rightarrow> json \<Rightarrow> callable_run" where
  \<open>generate rt gm images =
     (case images of
        JArr parts \<Rightarrow>
          \<lparr> result =
              (case gm parts of
                 Inl err \<Rightarrow> HttpsError ''internal''
               | Inr text \<Rightarrow>
                   (let jsonStr = trim (replace_all ''```'' (replace_all ''```json'' text))
                    in case JSON_parse rt jsonStr of
                      None \<Rightarrow> HttpsError ''internal''
                    | Some d \<Rightarrow> Returned d)),
            model_calls = [parts] \<rparr>
      | _ \<Rightarrow> \<lparr> result = HttpsError ''internal'', model_calls = [] \<rparr>)\<close>

text \<open>
  \<open>data\<close> is \<^verbatim>\<open>request.data\<close>. The images are \<^verbatim>\<open>data.images\<close> when that is truthy,
  else the one image \<^verbatim>\<open>data.imageBase64\<close> when that is truthy, else the callable
  throws \<^verbatim>\<open>invalid-argument\<close>. Nothing else is asked of them.
\<close>

definition analyzeListing :: "js_runtime \<Rightarrow> gemini \<Rightarrow> json \<Rightarrow> callable_run" where
  "analyzeListing rt gm data =
     (case get_prop data ''images'' of
        Inl err \<Rightarrow> \<lparr> result = Uncaught err, model_calls = [] \<rparr>
      | Inr im \<Rightarrow>
          (case (if truthy im then im
                 else case get_prop data ''imageBase64'' of
                   Inl err \<Rightarrow> None
                 | Inr b \<Rightarrow> if truthy b then map_option (\<lambda>x. JArr [x]) b else None) of
             Some images \<Rightarrow> generate rt gm images
           | None \<Rightarrow> \<lparr> result = HttpsError ''invalid-argument'', model_calls = [] \<rparr>))"

section \<open>A reference runtime\<close>

text \<open>
  The theorems below hold for every runtime. To run the model on a concrete text, this
  section gives one instance of the three built-ins: a parser of the JSON grammar
  (ECMA-404), the decimal text of a number and the number of a decimal text. Numbers
  keep their exact rational value where JavaScript rounds to the nearest double, and a
  \<^verbatim>\<open>\u\<close> escape is read only below \<open>0x100\<close>, the range of \<open>char\<close>.
\<close>

definition json_ws :: "char \<Rightarrow> bool" where
  "json_ws c = (c = CHR '' '' \<or> c = CHR 0x09 \<or> c = CHR 0x0A \<or> c = CHR 0x0D)"

definition skip_ws :: "string \<Rightarrow> string" where
  "skip_ws s = dropWhile json_ws s"

definition is_digit :: "char \<Rightarrow> bool" where
  "is_digit c = (48 \<le> (of_char c :: nat) \<and> (of_char c :: nat) \<le> 57)"

definition digit_value :: "char \<Rightarrow> nat" where
  "digit_value c = of_char c - 48"

definition digits_value :: "string \<Rightarrow> nat" where
  "digits_value ds = foldl (\<lambda>a c. 10 * a + digit_value c) 0 ds"

definition hex_value :: "char \<Rightarrow> nat option" where
  "hex_value c =
     (let n = (of_char c :: nat) in
      if 48 \<le> n \<and> n \<le> 57 then Some (n - 48)
      else if 65 \<le> n \<and> n \<le> 70 then Some (n - 55)
      else if 97 \<le> n \<and> n \<le> 102 then Some (n - 87)
      else None)"

fun parse_string_body :: "string \<Rightarrow> (string \<times> string) option" where
  \<open>parse_string_body [] = None\<close>
| \<open>parse_string_body (c # cs) =
     (if c = CHR ''"'' then Some ([], cs)
      else if c = CHR 0x5C then
        (case cs of
           [] \<Rightarrow> None
         | e # rest \<Rightarrow>
             (if e = CHR ''u'' then
                (case map hex_value (take 4 rest) of
                   [Some a, Some b, Some c', Some d] \<Rightarrow>
                     (if a = 0 \<and> b = 0 then
                        map_option (\<lambda>(t, r). (char_of (16 * c' + d) # t, r))
                          (parse_string_body (drop 4 rest))
                      else None)
                 | _ \<Rightarrow> None)
              else
                (case map_of
                   [(CHR ''"'', CHR ''"''), (CHR 0x5C, CHR 0x5C), (CHR ''/'', CHR ''/''),
                    (CHR ''b'', CHR 0x08), (CHR ''f'', CHR 0x0C), (CHR ''n'', CHR 0x0A),
                    (CHR ''r'', CHR 0x0D), (CHR ''t'', CHR 0x09)] e of
                   None \<Rightarrow> None
                 | Some x \<Rightarrow> map_option (\<lambda>(t, r). (x # t, r)) (parse_string_body rest))))
      else if (of_char c :: nat) < 32 then None
      else map_option (\<lambda>(t, r). (c # t, r)) (parse_string_body cs))\<close>


definition pow10 :: "bool \<Rightarrow> nat \<Rightarrow> rat \<Rightarrow> rat" where
  "pow10 negative e q = (if negative then q / 10 ^ e else q * 10 ^ e)"

definition parse_exponent :: "string \<Rightarrow> ((bool \<times> nat) \<times> string) option" where
  "parse_exponent s =
     (case s of
        [] \<Rightarrow> Some ((False, 0), s)
      | c # cs \<Rightarrow>
          if c = CHR ''e'' \<or> c = CHR ''E'' then
            (let (negative, r) =
               (case cs of
                  [] \<Rightarrow> (False, cs)
                | x # xs \<Rightarrow> if x = CHR ''-'' then (True, xs)
                            else if x = CHR ''+'' then (False, xs) else (False, cs));
                 es = takeWhile is_digit r
             in if es = [] then None
                else Some ((negative, digits_value es), dropWhile is_digit r))
          else Some ((False, 0), s))"

definition parse_fraction :: "string \<Rightarrow> (string \<times> string) option" where
  "parse_fraction s =
     (case s of
        [] \<Rightarrow> Some ([], s)
      | c # cs \<Rightarrow>
          if c = CHR ''.'' then
            (let fs = takeWhile is_digit cs
             in if fs = [] then None else Some (fs, dropWhile is_digit cs))
          else Some ([], s))"

definition parse_number :: "string \<Rightarrow> (json \<times> string) option" where
  "parse_number s =
     (let (negative, s1) =
        (case s of [] \<Rightarrow> (False, s) | c # cs \<Rightarrow> if c = CHR ''-'' then (True, cs) else (False, s));
          ds = takeWhile is_digit s1
      in if ds = [] \<or> (length ds > 1 \<and> hd ds = CHR ''0'') then None
         else case parse_fraction (dropWhile is_digit s1) of
           None \<Rightarrow> None
         | Some (fs, s2) \<Rightarrow>
             (case parse_exponent s2 of
                None \<Rightarrow> None
              | Some ((eneg, e), s3) \<Rightarrow>
                  (let m = pow10 eneg e (of_nat (digits_value (ds @ fs)) / 10 ^ length fs)
                   in Some (JNum (Fin (if negative then - m else m)), s3))))"

definition starts_with :: "string \<Rightarrow> string \<Rightarrow> bool" where
  "starts_with s p = (take (length p) s = p)"

fun parse_value :: "nat \<Rightarrow> string \<Rightarrow> (json \<times> string) option"
  and parse_elements :: "nat \<Rightarrow> string \<Rightarrow> (json list \<times> string) option"
  and parse_members :: "nat \<Rightarrow> string \<Rightarrow> ((string \<times> json) list \<times> string) option"
where
  \<open>parse_value 0 s = None\<close>
| \<open>parse_value (Suc n) s =
     (case skip_ws s of
        [] \<Rightarrow> None
      | c # cs \<Rightarrow>
          if c = CHR ''{'' then
            (case skip_ws cs of
               [] \<Rightarrow> None
             | d # ds \<Rightarrow> if d = CHR ''}'' then Some (JObj [], ds)
                         else map_option (\<lambda>(kvs, r). (JObj kvs, r)) (parse_members n cs))
          else if c = CHR ''['' then
            (case skip_ws cs of
               [] \<Rightarrow> None
             | d # ds \<Rightarrow> if d = CHR '']'' then Some (JArr [], ds)
                         else map_option (\<lambda>(vs, r). (JArr vs, r)) (parse_elements n cs))
          else if c = CHR ''"'' then map_option (\<lambda>(t, r). (JStr t, r)) (parse_string_body cs)
          else if starts_with (c # cs) ''true'' then Some (JBool True, drop 4 (c # cs))
          else if starts_with (c # cs) ''false'' then Some (JBool False, drop 5 (c # cs))
          else if starts_with (c # cs) ''null'' then Some (JNull, drop 4 (c # cs))
          else parse_number (c # cs))\<close>
| \<open>parse_elements 0 s = None\<close>
| \<open>parse_elements (Suc n) s =
     (case parse_value n s of
        None \<Rightarrow> None
      | Some (v, r) \<Rightarrow>
          (case skip_ws r of
             [] \<Rightarrow> None
           | d # ds \<Rightarrow>
               if d = CHR '','' then map_option (\<lambda>(vs, r'). (v # vs, r')) (parse_elements n ds)
               else if d = CHR '']'' then Some ([v], ds)
               else None))\<close>
| \<open>parse_members 0 s = None\<close>
| \<open>parse_members (Suc n) s =
     (case skip_ws s of
        [] \<Rightarrow> None
      | q # cs \<Rightarrow>
          if q \<noteq> CHR ''"'' then None
          else
            (case parse_string_body cs of
               None \<Rightarrow> None
             | Some (k, r) \<Rightarrow>
                 (case skip_ws r of
                    [] \<Rightarrow> None
                  | colon # r1 \<Rightarrow>
                      if colon \<noteq> CHR '':'' then None
                      else
                        (case parse_value n r1 of
                           None \<Rightarrow> None
                         | Some (v, r2) \<Rightarrow>
                             (case skip_ws r2 of
                                [] \<Rightarrow> None
                              | d # ds \<Rightarrow>
                                  if d = CHR '','' then
                                    map_option (\<lambda>(kvs, r'). ((k, v) # kvs, r'))
                                      (parse_members n ds)
                                  else if d = CHR ''}'' then Some ([(k, v)], ds)
                                  else None)))))\<close>

text \<open>
  The fuel bounds the depth of the calls: each call of \<open>parse_elements\<close> or
  \<open>parse_members\<close> follows a character read, and calls \<open>parse_value\<close> once before the
  next is read.
\<close>

definition JSON_parse_ref :: "string \<Rightarrow> json option" where
  "JSON_parse_ref s =
     (case parse_value (2 * length s + 2) s of
        None \<Rightarrow> None
      | Some (v, r) \<Rightarrow> if skip_ws r = [] then Some v else None)"

text \<open>
  The number of a text: white space is trimmed; the empty text is 0; then
  \<^verbatim>\<open>0x\<close>, \<^verbatim>\<open>0o\<close>, \<^verbatim>\<open>0b\<close> literals, a signed \<^verbatim>\<open>Infinity\<close>, or a signed decimal
  literal with optional fraction and exponent; any other text is \<open>NaN\<close>.
\<close>

definition radix_value :: "nat \<Rightarrow> string \<Rightarrow> jsnum" where
  "radix_value b cs =
     (if cs \<noteq> [] \<and> list_all (\<lambda>c. case hex_value c of None \<Rightarrow> False | Some d \<Rightarrow> d < b) cs
      then Fin (of_nat (foldl (\<lambda>a c. b * a + (case hex_value c of None \<Rightarrow> 0 | Some d \<Rightarrow> d)) 0 cs))
      else NaN)"

definition decimal_value :: "string \<Rightarrow> jsnum" where
  "decimal_value s =
     (let (negative, u) =
        (case s of
           [] \<Rightarrow> (False, s)
         | c # cs \<Rightarrow> if c = CHR ''-'' then (True, cs)
                     else if c = CHR ''+'' then (False, cs) else (False, s))
      in if u = ''Infinity'' then (if negative then NegInf else PosInf)
         else
           (let ds = takeWhile is_digit u;
                r1 = dropWhile is_digit u;
                dot = (r1 \<noteq> [] \<and> hd r1 = CHR ''.'');
                fs = (if dot then takeWhile is_digit (tl r1) else []);
                r2 = (if dot then dropWhile is_digit (tl r1) else r1)
            in if ds = [] \<and> fs = [] then NaN
               else case parse_exponent r2 of
                 Some ((eneg, e), []) \<Rightarrow>
                   (let m = pow10 eneg e (of_nat (digits_value (ds @ fs)) / 10 ^ length fs)
                    in Fin (if negative then - m else m))
               | _ \<Rightarrow> NaN))"

definition StringToNumber_ref :: "string \<Rightarrow> jsnum" where
  "StringToNumber_ref s =
     (let t = trim s in
      if t = [] then Fin 0
      else if starts_with t ''0x'' \<or> starts_with t ''0X'' then radix_value 16 (drop 2 t)
      else if starts_with t ''0o'' \<or> starts_with t ''0O'' then radix_value 8 (drop 2 t)
      else if starts_with t ''0b'' \<or> starts_with t ''0B'' then radix_value 2 (drop 2 t)
      else decimal_value t)"

text \<open>
  The text of a number: its exact decimal expansion. This is what JavaScript prints for
  an integer below \<open>10^21\<close> in magnitude, and for a fraction such as \<open>85.5\<close> whose
  shortest decimal form is exact and needs no exponent.
\<close>

function nat_digits :: "nat \<Rightarrow> string" where
  "nat_digits n =
     (if n < 10 then [''0123456789'' ! n]
      else nat_digits (n div 10) @ [''0123456789'' ! (n mod 10)])"
  by pat_completeness auto
termination
  by (relation "measure id") auto

fun frac_digits :: "nat \<Rightarrow> rat \<Rightarrow> string" where
  "frac_digits 0 q = []"
| "frac_digits (Suc k) q =
     (if q = 0 then []
      else (''0123456789'' ! nat \<lfloor>q * 10\<rfloor>) # frac_digits k (q * 10 - of_int \<lfloor>q * 10\<rfloor>))"

definition Number_toString_ref :: "jsnum \<Rightarrow> string" where
  "Number_toString_ref n =
     (case n of
        NaN \<Rightarrow> ''NaN''
      | PosInf \<Rightarrow> ''Infinity''
      | NegInf \<Rightarrow> ''-Infinity''
      | Fin q \<Rightarrow>
          (let a = \<bar>q\<bar>; i = nat \<lfloor>a\<rfloor>; f = a - of_nat i
           in (if q < 0 then ''-'' else []) @ nat_digits i
              @ (if f = 0 then [] else ''.'' @ frac_digits 1100 f)))"

definition rt_ref :: js_runtime where
  "rt_ref = \<lparr> JSON_parse = JSON_parse_ref, Number_toString = Number_toString_ref,
              StringToNumber = StringToNumber_ref \<rparr>"

section \<open>Properties stated about the handlers\<close>

text \<open>A score is in range when it is a finite number between 0 and 100.\<close>

definition in_range :: "jsnum \<Rightarrow> bool" where
  "in_range n = (case n of Fin q \<Rightarrow> 0 \<le> q \<and> q \<le> 100 | _ \<Rightarrow> False)"

definition integer_valued :: "jsnum \<Rightarrow> bool" where
  "integer_valued n = (case n of Fin q \<Rightarrow> of_int \<lfloor>q\<rfloor> = q | _ \<Rightarrow> False)"

text \<open>The block run on a value, and run again on the object it built.\<close>

definition cleaned_twice :: "js_runtime \<Rightarrow> json \<Rightarrow> js_error + ListingReport" where
  "cleaned_twice rt report = bind_err (cleaned rt report) (\<lambda>r. cleaned rt (report_json r))"

text \<open>The report in which every field has its default.\<close>

definition all_defaults :: ListingReport where
  "all_defaults =
     \<lparr> vehicle_title = ''Unknown Vehicle'', lens_score = Fin 50,
       summary = ''No summary returned.'', market_value_estimate = ''Unknown'',
       red_flags = [], questions_to_ask = canned_questions \<rparr>"

text \<open>
  The bounds the block gives every report it builds, and the table of the data model
  read on a JSON value: all six fields present, of the right type, within the table's
  bounds.
\<close>

definition report_bounds :: "ListingReport \<Rightarrow> bool" where
  "report_bounds r =
     (length (vehicle_title r) \<le> 120 \<and> in_range (lens_score r) \<and>
      length (summary r) \<le> 500 \<and> length (market_value_estimate r) \<le> 80 \<and>
      length (red_flags r) \<le> 8 \<and>
      3 \<le> length (questions_to_ask r) \<and> length (questions_to_ask r) \<le> 8)"

definition is_text :: "json option \<Rightarrow> nat \<Rightarrow> nat \<Rightarrow> bool" where
  "is_text v lo hi = (case v of Some (JStr s) \<Rightarrow> lo \<le> length s \<and> length s \<le> hi | _ \<Rightarrow> False)"

definition is_text_list :: "json option \<Rightarrow> nat \<Rightarrow> nat \<Rightarrow> bool" where
  "is_text_list v lo hi =
     (case v of
        Some (JArr xs) \<Rightarrow>
          list_all (\<lambda>x. case x of JStr s \<Rightarrow> True | _ \<Rightarrow> False) xs \<and>
          lo \<le> length xs \<and> length xs \<le> hi
      | _ \<Rightarrow> False)"

definition table_invariants :: "json \<Rightarrow> bool" where
  "table_invariants d =
     (case d of
        JObj kvs \<Rightarrow>
          is_text (own_property kvs ''vehicle_title'') 1 120 \<and>
          (case own_property kvs ''lens_score'' of
             Some (JNum n) \<Rightarrow> in_range n \<and> integer_valued n
           | _ \<Rightarrow> False) \<and>
          is_text (own_property kvs ''summary'') 0 500 \<and>
          is_text (own_property kvs ''market_value_estimate'') 0 80 \<and>
          is_text_list (own_property kvs ''red_flags'') 0 8 \<and>
          is_text_list (own_property kvs ''questions_to_ask'') 3 8
      | _ \<Rightarrow> False)"

text \<open>
  The image sequences the transport contract rejects: empty, more than 4 elements, an
  element that is not a string, or a string of more than 12,000,000 characters.
\<close>

definition rejected_images :: "json list \<Rightarrow> bool" where
  "rejected_images imgs =
     (imgs = [] \<or> length imgs > 4 \<or>
      list_ex (\<lambda>x. case x of JStr s \<Rightarrow> length s > 12000000 | _ \<Rightarrow> True) imgs)"

definition invalid_input :: "response \<Rightarrow> bool" where
  "invalid_input r = (statusCode r = 400 \<or> statusCode r = 413)"

text \<open>
  The values whose conversion to text cannot throw: no object with an own member
  \<^verbatim>\<open>toString\<close>, and no array that holds one at any depth.
\<close>

fun no_own_toString :: "json \<Rightarrow> bool" where
  "no_own_toString (JArr xs) = list_all no_own_toString xs"
| "no_own_toString (JObj kvs) = (own_property kvs ''toString'' = None)"
| "no_own_toString v = True"

text \<open>
  A response is a sound success when status 200 comes with \<^verbatim>\<open>{ ok: true }\<close> or with
  a report, and a report comes only with status 200 and within the bounds.
\<close>

definition sound_success :: "response \<Rightarrow> bool" where
  "sound_success resp =
     ((statusCode resp = 200 \<longrightarrow> body resp = Ok_true \<or> (\<exists>r. body resp = Data r)) \<and>
      (\<forall>r. body resp = Data r \<longrightarrow> statusCode resp = 200 \<and> report_bounds r))"

text \<open>Two providers that answer every call with the text \<^verbatim>\<open>{}\<close>.\<close>

definition gateway_sample :: gateway where
  "gateway_sample urls = Inr (Some ''{}'')"

definition gemini_sample :: gemini where
  "gemini_sample parts = Inr ''{}''"

text \<open>The values the examples below run on.\<close>

definition hilux :: json where
  "hilux =
     JObj [(''vehicle_title'', JStr ''2019 Toyota Hilux''), (''lens_score'', JNum (Fin 85)),
           (''summary'', JStr ''Solid truck.''), (''market_value_estimate'', JStr ''$28k-$33k''),
           (''red_flags'', JArr []), (''questions_to_ask'', JArr [JStr ''Any accidents?''])]"

definition hilux_report :: ListingReport where
  "hilux_report =
     \<lparr> vehicle_title = ''2019 Toyota Hilux'', lens_score = Fin 85,
       summary = ''Solid truck.'', market_value_estimate = ''$28k-$33k'',
       red_flags = [], questions_to_ask = ''Any accidents?'' # canned_questions \<rparr>"

section \<open>The fields of the block\<close>

lemma bind_err_Inr: "bind_err m f = Inr y \<longleftrightarrow> (\<exists>x. m = Inr x \<and> f x = Inr y)"
  by (cases m) (auto simp: bind_err_def)

lemma bind_err_simps [simp]: "bind_err (Inl e) f = Inl e" "bind_err (Inr x) f = f x"
  by (simp_all add: bind_err_def)

lemma clamp_in_range: "n \<noteq> NaN \<Longrightarrow> in_range (clamp n (Fin 0) (Fin 100))"
  by (cases n) (auto simp: clamp_def in_range_def)

lemma clamp_fixed: "in_range n \<Longrightarrow> clamp n (Fin 0) (Fin 100) = n"
  by (cases n) (auto simp: clamp_def in_range_def)

lemma num_or_not_NaN: "num_or n (Fin 50) \<noteq> NaN"
  by (simp add: num_or_def)

lemma text_field_length: "text_field rt c k d n = Inr s \<Longrightarrow> length s \<le> n"
  by (auto simp: text_field_def bind_err_Inr)

lemma score_field_in_range: "score_field rt c = Inr n \<Longrightarrow> in_range n"
  by (auto simp: score_field_def bind_err_Inr clamp_in_range num_or_not_NaN)

lemma list_field_Inr:
  "list_field rt c k = Inr ss \<Longrightarrow>
     (\<exists>xs ts. get_prop c k = Inr (Some (JArr xs)) \<and> map_String rt xs = Inr ts \<and> ss = take 8 ts)
     \<or> ((\<exists>v. get_prop c k = Inr v \<and> (\<forall>xs. v \<noteq> Some (JArr xs))) \<and> ss = [])"
proof -
  assume a: "list_field rt c k = Inr ss"
  then obtain v where v: "get_prop c k = Inr v"
    by (auto simp: list_field_def bind_err_Inr)
  show ?thesis
  proof (cases v)
    case None
    with a v show ?thesis by (simp add: list_field_def)
  next
    case (Some x)
    with a v show ?thesis
      by (cases x) (auto simp: list_field_def bind_err_Inr)
  qed
qed

lemma list_field_length: "list_field rt c k = Inr ss \<Longrightarrow> length ss \<le> 8"
  by (drule list_field_Inr) auto

lemma backfill_length: "length qs \<le> 8 \<Longrightarrow> 3 \<le> length (backfill qs) \<and> length (backfill qs) \<le> 8"
  by (auto simp: backfill_def canned_questions_def)

lemma backfill_short: "length qs < 3 \<Longrightarrow> backfill qs = qs @ canned_questions"
  by (simp add: backfill_def canned_questions_def)

lemma cleaned_Inr:
  "cleaned rt c = Inr r \<longleftrightarrow>
     (\<exists>vt ls sm mv rf qs.
        text_field rt c ''vehicle_title'' ''Unknown Vehicle'' 120 = Inr vt \<and>
        score_field rt c = Inr ls \<and>
        text_field rt c ''summary'' ''No summary returned.'' 500 = Inr sm \<and>
        text_field rt c ''market_value_estimate'' ''Unknown'' 80 = Inr mv \<and>
        list_field rt c ''red_flags'' = Inr rf \<and>
        list_field rt c ''questions_to_ask'' = Inr qs \<and>
        r = \<lparr> vehicle_title = vt, lens_score = ls, summary = sm,
              market_value_estimate = mv, red_flags = rf,
              questions_to_ask = backfill qs \<rparr>)"
  unfolding cleaned_def bind_err_Inr by auto

lemma text_field_Inr:
  "text_field rt c k d n = Inr s \<Longrightarrow>
     \<exists>v t. get_prop c k = Inr v \<and> toString_call rt (js_or v (JStr d)) = Inr t \<and> s = take n t"
  by (auto simp: text_field_def bind_err_Inr)

lemma js_or_truthy: "truthy (Some x) \<Longrightarrow> js_or (Some x) d = x"
  by (simp add: js_or_def)

lemma js_or_falsy: "\<not> truthy v \<Longrightarrow> js_or v d = d"
  by (cases v) (simp_all add: js_or_def)

lemma cleaned_bounds: "cleaned rt c = Inr r \<Longrightarrow> report_bounds r"
  unfolding cleaned_Inr report_bounds_def
  by (auto dest: text_field_length score_field_in_range list_field_length
        simp: backfill_length)

lemma map_String_JStr: "map_String rt (map JStr ss) = Inr ss"
  by (induction ss) simp_all

lemma text_field_report_json:
  assumes "own_property kvs k = Some (JStr s)" "s \<noteq> []" "length s \<le> n"
  shows "text_field rt (JObj kvs) k d n = Inr s"
  using assms by (simp add: text_field_def js_or_def toString_call_def)

lemma list_field_report_json:
  assumes "own_property kvs k = Some (JArr (map JStr ss))" "length ss \<le> 8"
  shows "list_field rt (JObj kvs) k = Inr ss"
  using assms by (simp add: list_field_def map_String_JStr)

lemma score_field_report_json:
  assumes "own_property kvs ''lens_score'' = Some (JNum n)" "in_range n" "n \<noteq> Fin 0"
  shows "score_field rt (JObj kvs) = Inr n"
proof -
  from assms(2) have "n \<noteq> NaN" by (auto simp: in_range_def)
  with assms show ?thesis by (simp add: score_field_def num_or_def clamp_fixed)
qed

lemma cleaned_report_json:
  assumes b: "report_bounds r"
    and nz: "lens_score r \<noteq> Fin 0"
    and ne: "vehicle_title r \<noteq> []" "summary r \<noteq> []" "market_value_estimate r \<noteq> []"
  shows "cleaned rt (report_json r) = Inr r"
proof -
  let ?kvs = "[(''vehicle_title'', JStr (vehicle_title r)),
           (''lens_score'', JNum (lens_score r)),
           (''summary'', JStr (summary r)),
           (''market_value_estimate'', JStr (market_value_estimate r)),
           (''red_flags'', JArr (map JStr (red_flags r))),
           (''questions_to_ask'', JArr (map JStr (questions_to_ask r)))]"
  have j: "report_json r = JObj ?kvs" by (simp add: report_json_def)
  have 1: "text_field rt (JObj ?kvs) ''vehicle_title'' ''Unknown Vehicle'' 120 = Inr (vehicle_title r)"
    using b ne by (intro text_field_report_json) (simp_all add: own_property_def report_bounds_def)
  have 2: "score_field rt (JObj ?kvs) = Inr (lens_score r)"
    using b nz by (intro score_field_report_json) (simp_all add: own_property_def report_bounds_def)
  have 3: "text_field rt (JObj ?kvs) ''summary'' ''No summary returned.'' 500 = Inr (summary r)"
    using b ne by (intro text_field_report_json) (simp_all add: own_property_def report_bounds_def)
  have 4: "text_field rt (JObj ?kvs) ''market_value_estimate'' ''Unknown'' 80 = Inr (market_value_estimate r)"
    using b ne by (intro text_field_report_json) (simp_all add: own_property_def report_bounds_def)
  have 5: "list_field rt (JObj ?kvs) ''red_flags'' = Inr (red_flags r)"
    using b by (intro list_field_report_json) (simp_all add: own_property_def report_bounds_def)
  have 6: "list_field rt (JObj ?kvs) ''questions_to_ask'' = Inr (questions_to_ask r)"
    using b by (intro list_field_report_json) (simp_all add: own_property_def report_bounds_def)
  have 7: "backfill (questions_to_ask r) = questions_to_ask r"
    using b by (simp add: backfill_def report_bounds_def)
  show ?thesis
    unfolding j cleaned_def 1 2 3 4 5 6 by (simp add: 7)
qed


section \<open>The normalisation block can throw\<close>

text \<open>
  C1. The claim is that the block never fails, for any value that extraction hands it.
  On the reply \<^verbatim>\<open>{"vehicle_title":{"toString":1}}\<close> the title is an object whose
  own member \<^verbatim>\<open>toString\<close> is not a function: \<^verbatim>\<open>.toString()\<close> throws a
  \<^verbatim>\<open>TypeError\<close>, the block builds no report, and the handler's \<^verbatim>\<open>catch\<close>
  answers 500 \<^verbatim>\<open>Analysis failed\<close>.
\<close>

theorem C1_cleaned_throws:
  \<open>cleaned rt (JObj [(''vehicle_title'', JObj [(''toString'', x)])]) = Inl TypeError \<and>
   JSON_parse rt_ref ''{"vehicle_title":{"toString":1}}'' =
     Some (JObj [(''vehicle_title'', JObj [(''toString'', JNum (Fin 1))])]) \<and>
   respond_output rt_ref ''{"vehicle_title":{"toString":1}}'' =
     response 500 (Error_message ''Analysis failed'' TypeError)\<close>
proof -
  have a: "cleaned rt (JObj [(''vehicle_title'', JObj [(''toString'', x)])]) = Inl TypeError"
    by (simp add: cleaned_def text_field_def own_property_def js_or_def toString_call_def)
  have b: \<open>JSON_parse rt_ref ''{"vehicle_title":{"toString":1}}'' =
     Some (JObj [(''vehicle_title'', JObj [(''toString'', JNum (Fin 1))])])\<close>
    by code_simp
  have c: \<open>respond_output rt_ref ''{"vehicle_title":{"toString":1}}'' =
     response 500 (Error_message ''Analysis failed'' TypeError)\<close>
    by code_simp
  from a b c show ?thesis by blast
qed

text \<open>
  The block returns a report for every value other than \<^verbatim>\<open>null\<close> whose fields
  hold no such object.
\<close>

lemma ToString_returns:
  "no_own_toString v \<Longrightarrow> \<exists>s. ToString rt v = Inr s"
  "list_all no_own_toString xs \<Longrightarrow> \<exists>s. join rt xs = Inr s"
proof (induction rt v and rt xs rule: ToString_join.induct)
  case (9 rt x y ys)
  then show ?case by (auto simp: bind_err_def)
qed auto

lemma map_String_returns:
  "list_all no_own_toString xs \<Longrightarrow> \<exists>ss. map_String rt xs = Inr ss"
proof (induction xs)
  case Nil
  then show ?case by simp
next
  case (Cons x xs)
  then obtain s ss where "ToString rt x = Inr s" "map_String rt xs = Inr ss"
    using ToString_returns(1) [of x rt] by auto
  then show ?case by simp
qed

lemma toString_call_returns:
  assumes "\<forall>x. v = Some x \<longrightarrow> no_own_toString x"
  shows "\<exists>s. toString_call rt (js_or v (JStr d)) = Inr s"
proof (cases "truthy v")
  case False
  then show ?thesis by (simp add: js_or_falsy toString_call_def)
next
  case True
  then obtain x where x0: "v = Some x" by (cases v) auto
  with True have "x \<noteq> JNull" by auto
  with x0 have x: "v = Some x" "x \<noteq> JNull" by simp_all
  with assms obtain s where "ToString rt x = Inr s" using ToString_returns(1) by blast
  with x True show ?thesis by (simp add: js_or_truthy toString_call_def)
qed

lemma ToNumber_returns:
  assumes "\<forall>x. v = Some x \<longrightarrow> no_own_toString x"
  shows "\<exists>n. ToNumber rt v = Inr n"
proof (cases v)
  case None
  then show ?thesis by simp
next
  case (Some x)
  with assms obtain s where "ToString rt x = Inr s" using ToString_returns(1) by blast
  with Some show ?thesis by (cases x) simp_all
qed

lemma list_field_returns:
  assumes "get_prop report k = Inr v" "\<forall>x. v = Some x \<longrightarrow> no_own_toString x"
  shows "\<exists>ss. list_field rt report k = Inr ss"
proof (cases "\<exists>xs. v = Some (JArr xs)")
  case True
  then obtain xs where xs: "v = Some (JArr xs)" by blast
  with assms(2) have "list_all no_own_toString xs" by simp
  then obtain ss where "map_String rt xs = Inr ss" using map_String_returns by blast
  with assms(1) xs show ?thesis by (simp add: list_field_def)
next
  case False
  with assms(1) show ?thesis
    by (cases v; cases "the v") (auto simp: list_field_def)
qed

lemma cleaned_returns:
  assumes "report \<noteq> JNull"
    and "\<forall>k x. get_prop report k = Inr (Some x) \<longrightarrow> no_own_toString x"
  shows "\<exists>r. cleaned rt report = Inr r"
proof -
  have g: "\<exists>v. get_prop report k = Inr v \<and> (\<forall>x. v = Some x \<longrightarrow> no_own_toString x)" for k
    using assms by (cases report) auto
  have t: "\<exists>s. text_field rt report k d n = Inr s" for k d n
  proof -
    from g [of k] obtain v where v: "get_prop report k = Inr v"
      "\<forall>x. v = Some x \<longrightarrow> no_own_toString x" by blast
    from toString_call_returns [OF v(2)] obtain s where
      "toString_call rt (js_or v (JStr d)) = Inr s" by blast
    with v(1) show ?thesis by (simp add: text_field_def)
  qed
  have s: "\<exists>n. score_field rt report = Inr n"
  proof -
    from g [of "''lens_score''"] obtain v where v: "get_prop report ''lens_score'' = Inr v"
      "\<forall>x. v = Some x \<longrightarrow> no_own_toString x" by blast
    from ToNumber_returns [OF v(2)] obtain n where "ToNumber rt v = Inr n" by blast
    with v(1) show ?thesis by (simp add: score_field_def)
  qed
  have l: "\<exists>ss. list_field rt report k = Inr ss" for k
    using g [of k] list_field_returns by blast
  from t [of "''vehicle_title''" "''Unknown Vehicle''" 120] obtain vt where
    1: "text_field rt report ''vehicle_title'' ''Unknown Vehicle'' 120 = Inr vt" by blast
  from s obtain ls where 2: "score_field rt report = Inr ls" by blast
  from t [of "''summary''" "''No summary returned.''" 500] obtain sm where
    3: "text_field rt report ''summary'' ''No summary returned.'' 500 = Inr sm" by blast
  from t [of "''market_value_estimate''" "''Unknown''" 80] obtain mv where
    4: "text_field rt report ''market_value_estimate'' ''Unknown'' 80 = Inr mv" by blast
  from l [of "''red_flags''"] obtain rf where 5: "list_field rt report ''red_flags'' = Inr rf" by blast
  from l [of "''questions_to_ask''"] obtain qs where
    6: "list_field rt report ''questions_to_ask'' = Inr qs" by blast
  show ?thesis unfolding cleaned_def 1 2 3 4 5 6 by simp
qed

section \<open>Running the block twice\<close>

text \<open>
  C2, as amended. Running the block on the object it built gives the same report
  again, for every value on which the block returns a report whose score is not 0 and
  whose three texts are not empty.
\<close>

theorem C2_idempotent_on_truthy_reports:
  assumes "cleaned rt c = Inr r"
    and "lens_score r \<noteq> Fin 0"
    and "vehicle_title r \<noteq> []" "summary r \<noteq> []" "market_value_estimate r \<noteq> []"
  shows "cleaned_twice rt c = cleaned rt c"
proof -
  have "cleaned rt (report_json r) = Inr r"
    using cleaned_bounds [OF assms(1)] assms(2-5) by (rule cleaned_report_json)
  with assms(1) show ?thesis by (simp add: cleaned_twice_def)
qed

theorem C2_idempotent_witness:
  "cleaned rt_ref hilux = Inr hilux_report \<and> lens_score hilux_report \<noteq> Fin 0 \<and>
   vehicle_title hilux_report \<noteq> [] \<and> summary hilux_report \<noteq> [] \<and>
   market_value_estimate hilux_report \<noteq> [] \<and>
   cleaned_twice rt_ref hilux = cleaned rt_ref hilux"
proof -
  have h1: "cleaned rt_ref hilux = Inr hilux_report" by code_simp
  have h2: "lens_score hilux_report \<noteq> Fin 0" by (simp add: hilux_report_def)
  have h3: "vehicle_title hilux_report \<noteq> []" by (simp add: hilux_report_def)
  have h4: "summary hilux_report \<noteq> []" by (simp add: hilux_report_def)
  have h5: "market_value_estimate hilux_report \<noteq> []" by (simp add: hilux_report_def)
  from C2_idempotent_on_truthy_reports [OF h1 h2 h3 h4 h5] h1 h2 h3 h4 h5
  show ?thesis by simp
qed

text \<open>
  The claim as stated, for every value, fails: an empty array as summary is truthy and
  its text is empty, so the first run gives the empty summary, which the second run
  finds falsy and replaces by the default.
\<close>

theorem C2_counterexample:
  "cleaned_twice rt_ref (JObj [(''summary'', JArr [])]) \<noteq> cleaned rt_ref (JObj [(''summary'', JArr [])])"
  by code_simp

section \<open>The score\<close>

text \<open>
  C3, as amended. Whenever the block returns a report, its score is a finite number
  between 0 and 100; it is 50 when \<^verbatim>\<open>Number\<close> of the field is \<open>NaN\<close>, and the
  number clamped to the interval when \<^verbatim>\<open>Number\<close> of the field is a number other
  than zero. Nothing makes the score an integer.
\<close>

theorem C3_lens_score:
  assumes "cleaned rt c = Inr r"
  shows "in_range (lens_score r) \<and>
         (\<exists>v n. get_prop c ''lens_score'' = Inr v \<and> ToNumber rt v = Inr n \<and>
                (n = NaN \<longrightarrow> lens_score r = Fin 50) \<and>
                (n \<noteq> NaN \<and> n \<noteq> Fin 0 \<longrightarrow> lens_score r = clamp n (Fin 0) (Fin 100)))"
proof -
  from assms have sf: "score_field rt c = Inr (lens_score r)"
    unfolding cleaned_Inr by auto
  then obtain v n where
    v: "get_prop c ''lens_score'' = Inr v" and n: "ToNumber rt v = Inr n" and
    l: "lens_score r = clamp (num_or n (Fin 50)) (Fin 0) (Fin 100)"
    by (auto simp: score_field_def bind_err_Inr)
  have "n = NaN \<longrightarrow> lens_score r = Fin 50"
    using l by (simp add: num_or_def clamp_def)
  moreover have "n \<noteq> NaN \<and> n \<noteq> Fin 0 \<longrightarrow> lens_score r = clamp n (Fin 0) (Fin 100)"
    using l by (simp add: num_or_def)
  moreover have "in_range (lens_score r)"
    using sf by (rule score_field_in_range)
  ultimately show ?thesis using v n by blast
qed

theorem C3_lens_score_witness:
  "cleaned rt_ref (JObj [(''lens_score'', JNum (Fin (- 10)))]) =
     Inr (all_defaults \<lparr> lens_score := Fin 0 \<rparr>) \<and>
   cleaned rt_ref (JObj [(''lens_score'', JStr ''abc'')]) = Inr all_defaults \<and>
   in_range (lens_score (all_defaults \<lparr> lens_score := Fin 0 \<rparr>)) \<and>
   (\<exists>v n. get_prop (JObj [(''lens_score'', JNum (Fin (- 10)))]) ''lens_score'' = Inr v \<and>
          ToNumber rt_ref v = Inr n \<and> n \<noteq> NaN \<and> n \<noteq> Fin 0 \<and>
          lens_score (all_defaults \<lparr> lens_score := Fin 0 \<rparr>) = clamp n (Fin 0) (Fin 100)) \<and>
   (\<exists>v. get_prop (JObj [(''lens_score'', JStr ''abc'')]) ''lens_score'' = Inr v \<and>
        ToNumber rt_ref v = Inr NaN \<and> lens_score all_defaults = Fin 50)"
proof -
  have h1: "cleaned rt_ref (JObj [(''lens_score'', JNum (Fin (- 10)))]) =
              Inr (all_defaults \<lparr> lens_score := Fin 0 \<rparr>)"
    by code_simp
  have h2: "cleaned rt_ref (JObj [(''lens_score'', JStr ''abc'')]) = Inr all_defaults"
    by code_simp
  have g1: "get_prop (JObj [(''lens_score'', JNum (Fin (- 10)))]) ''lens_score'' =
              Inr (Some (JNum (Fin (- 10))))"
    by (simp add: own_property_def)
  have g2: "get_prop (JObj [(''lens_score'', JStr ''abc'')]) ''lens_score'' =
              Inr (Some (JStr ''abc''))"
    by (simp add: own_property_def)
  have n2: "ToNumber rt_ref (Some (JStr ''abc'')) = Inr NaN" by code_simp
  from C3_lens_score [OF h1] g1
  have a: "in_range (lens_score (all_defaults \<lparr> lens_score := Fin 0 \<rparr>)) \<and>
           lens_score (all_defaults \<lparr> lens_score := Fin 0 \<rparr>) =
             clamp (Fin (- 10)) (Fin 0) (Fin 100)"
    by auto
  from C3_lens_score [OF h2] g2 n2
  have b: "lens_score all_defaults = Fin 50" by auto
  show ?thesis using h1 h2 g1 g2 n2 a b by simp
qed

text \<open>
  The claim as stated fails on a score of 85.5, which the block returns as it is: not
  an integer.
\<close>

theorem C3_counterexample:
  "cleaned rt_ref (JObj [(''lens_score'', JNum (Fin (171 / 2)))]) =
     Inr (all_defaults \<lparr> lens_score := Fin (171 / 2) \<rparr>) \<and>
   \<not> integer_valued (Fin (171 / 2))"
  by code_simp

text \<open>A score of 0 is falsy, and the block returns 50 for it.\<close>

lemma lens_score_zero: "cleaned rt_ref (JObj [(''lens_score'', JNum (Fin 0))]) = Inr all_defaults"
  by code_simp

section \<open>The questions\<close>

text \<open>
  C6. Whenever the block returns a report, it has between 3 and 8 questions; when the
  stringified, truncated list of the field has fewer than 3 elements (the field absent,
  not an array, or an array of 0 to 2 elements), the three canned questions follow it in
  their order, nothing being removed, and the truncation to 8 changes nothing. A field
  that is absent or not an array gives the three canned questions alone.
\<close>

theorem C6_questions_to_ask:
  assumes "cleaned rt c = Inr r"
  shows "3 \<le> length (questions_to_ask r) \<and> length (questions_to_ask r) \<le> 8 \<and>
         (\<exists>qs. list_field rt c ''questions_to_ask'' = Inr qs \<and> length qs \<le> 8 \<and>
               (length qs < 3 \<longrightarrow>
                  questions_to_ask r = qs @ canned_questions \<and>
                  questions_to_ask r = take 8 (qs @ canned_questions)) \<and>
               (3 \<le> length qs \<longrightarrow> questions_to_ask r = qs)) \<and>
         (\<forall>v. get_prop c ''questions_to_ask'' = Inr v \<and> (\<forall>xs. v \<noteq> Some (JArr xs)) \<longrightarrow>
               questions_to_ask r = canned_questions)"
proof -
  from assms obtain qs where
    qs: "list_field rt c ''questions_to_ask'' = Inr qs" and
    r: "questions_to_ask r = backfill qs"
    unfolding cleaned_Inr by auto
  have len: "length qs \<le> 8" using qs by (rule list_field_length)
  from backfill_length [OF len] r
  have "3 \<le> length (questions_to_ask r) \<and> length (questions_to_ask r) \<le> 8" by simp
  moreover have "length qs < 3 \<longrightarrow>
      questions_to_ask r = qs @ canned_questions \<and>
      questions_to_ask r = take 8 (qs @ canned_questions)"
    using r by (simp add: backfill_def canned_questions_def)
  moreover have "3 \<le> length qs \<longrightarrow> questions_to_ask r = qs"
    using r by (simp add: backfill_def)
  moreover have "questions_to_ask r = canned_questions"
    if "get_prop c ''questions_to_ask'' = Inr v" "\<forall>xs. v \<noteq> Some (JArr xs)" for v
  proof -
    from list_field_Inr [OF qs] that have "qs = []" by auto
    with r show ?thesis by (simp add: backfill_def canned_questions_def)
  qed
  ultimately show ?thesis using qs len by blast
qed

theorem C6_questions_to_ask_witness:
  "cleaned rt_ref hilux = Inr hilux_report \<and>
   3 \<le> length (questions_to_ask hilux_report) \<and> length (questions_to_ask hilux_report) \<le> 8 \<and>
   list_field rt_ref hilux ''questions_to_ask'' = Inr [''Any accidents?''] \<and>
   questions_to_ask hilux_report = [''Any accidents?''] @ canned_questions \<and>
   cleaned rt_ref (JObj [(''questions_to_ask'', JStr ''none'')]) = Inr all_defaults \<and>
   questions_to_ask all_defaults = canned_questions"
proof -
  have h: "cleaned rt_ref hilux = Inr hilux_report" by code_simp
  have l: "list_field rt_ref hilux ''questions_to_ask'' = Inr [''Any accidents?'']" by code_simp
  have h2: "cleaned rt_ref (JObj [(''questions_to_ask'', JStr ''none'')]) = Inr all_defaults"
    by code_simp
  have g2: "get_prop (JObj [(''questions_to_ask'', JStr ''none'')]) ''questions_to_ask'' =
              Inr (Some (JStr ''none''))"
    by (simp add: own_property_def)
  from C6_questions_to_ask [OF h] l
  have a: "3 \<le> length (questions_to_ask hilux_report) \<and>
           length (questions_to_ask hilux_report) \<le> 8 \<and>
           questions_to_ask hilux_report = [''Any accidents?''] @ canned_questions"
    by auto
  from C6_questions_to_ask [OF h2] g2
  have b: "questions_to_ask all_defaults = canned_questions" by auto
  show ?thesis using h l h2 a b by blast
qed

section \<open>The title\<close>

text \<open>
  C7, as amended. Whenever the block returns a report, its title has at most 120
  characters: the first 120 of the text of the field when the field is truthy, the text
  \<^verbatim>\<open>Unknown Vehicle\<close> otherwise. It is not empty when the field is absent, falsy or a
  string.
\<close>

theorem C7_vehicle_title:
  assumes "cleaned rt c = Inr r"
  shows "length (vehicle_title r) \<le> 120 \<and>
         (\<exists>v. get_prop c ''vehicle_title'' = Inr v \<and>
              (\<not> truthy v \<longrightarrow> vehicle_title r = ''Unknown Vehicle'') \<and>
              (truthy v \<longrightarrow>
                 (\<exists>x t. v = Some x \<and> toString_call rt x = Inr t \<and> vehicle_title r = take 120 t)) \<and>
              (\<forall>s. v = Some (JStr s) \<and> s \<noteq> [] \<longrightarrow> vehicle_title r = take 120 s) \<and>
              ((\<not> truthy v \<or> (\<exists>s. v = Some (JStr s))) \<longrightarrow> vehicle_title r \<noteq> []))"
proof -
  from assms have tf: "text_field rt c ''vehicle_title'' ''Unknown Vehicle'' 120 = Inr (vehicle_title r)"
    unfolding cleaned_Inr by auto
  from text_field_Inr [OF tf] obtain v t where
    v: "get_prop c ''vehicle_title'' = Inr v" and
    t: "toString_call rt (js_or v (JStr ''Unknown Vehicle'')) = Inr t" and
    s: "vehicle_title r = take 120 t"
    by blast
  have falsy: "vehicle_title r = ''Unknown Vehicle''" if "\<not> truthy v"
  proof -
    from that t have "t = ''Unknown Vehicle''"
      by (simp add: js_or_falsy toString_call_def)
    with s show ?thesis by simp
  qed
  have tr: "\<exists>x t. v = Some x \<and> toString_call rt x = Inr t \<and> vehicle_title r = take 120 t"
    if "truthy v"
  proof -
    from that obtain x where x: "v = Some x" by (cases v) auto
    with that t s show ?thesis by (auto simp: js_or_truthy)
  qed
  have str: "vehicle_title r = take 120 s'" if "v = Some (JStr s')" "s' \<noteq> []" for s'
    using that t s by (simp add: js_or_def toString_call_def)
  have ne: "vehicle_title r \<noteq> []" if "\<not> truthy v \<or> (\<exists>s. v = Some (JStr s))"
  proof (cases "truthy v")
    case False
    then show ?thesis using falsy by simp
  next
    case True
    with that obtain s' where "v = Some (JStr s')" by auto
    with True str [of s'] show ?thesis by auto
  qed
  have "length (vehicle_title r) \<le> 120" using s by simp
  with v falsy tr str ne show ?thesis by blast
qed

theorem C7_vehicle_title_witness:
  "cleaned rt_ref hilux = Inr hilux_report \<and> length (vehicle_title hilux_report) \<le> 120 \<and>
   get_prop hilux ''vehicle_title'' = Inr (Some (JStr ''2019 Toyota Hilux'')) \<and>
   vehicle_title hilux_report = take 120 ''2019 Toyota Hilux'' \<and>
   cleaned rt_ref (JArr []) = Inr all_defaults \<and> get_prop (JArr []) ''vehicle_title'' = Inr None \<and>
   vehicle_title all_defaults = ''Unknown Vehicle''"
proof -
  have h1: "cleaned rt_ref hilux = Inr hilux_report" by code_simp
  have g1: "get_prop hilux ''vehicle_title'' = Inr (Some (JStr ''2019 Toyota Hilux''))" by code_simp
  have h2: "cleaned rt_ref (JArr []) = Inr all_defaults" by code_simp
  have g2: "get_prop (JArr []) ''vehicle_title'' = Inr None" by simp
  from C7_vehicle_title [OF h1] g1
  have a: "length (vehicle_title hilux_report) \<le> 120 \<and>
           vehicle_title hilux_report = take 120 ''2019 Toyota Hilux''"
    by auto
  from C7_vehicle_title [OF h2] g2
  have b: "vehicle_title all_defaults = ''Unknown Vehicle''" by auto
  show ?thesis using h1 g1 h2 g2 a b by simp
qed

text \<open>
  The claim as stated fails on an empty array as title: it is truthy, and its text is
  empty.
\<close>

theorem C7_counterexample:
  "cleaned rt_ref (JObj [(''vehicle_title'', JArr [])]) =
     Inr (all_defaults \<lparr> vehicle_title := [] \<rparr>) \<and>
   vehicle_title (all_defaults \<lparr> vehicle_title := [] \<rparr>) = []"
  by code_simp

section \<open>Extraction\<close>

lemma indexOf_append: "c \<notin> set pre \<Longrightarrow> indexOf (pre @ c # rest) c = Some (length pre)"
  by (induction pre) auto

lemma lastIndexOf_append:
  assumes "c \<notin> set post"
  shows "lastIndexOf (front @ c # post) c = Some (length front)"
proof -
  have "rev (front @ c # post) = rev post @ c # rev front" by simp
  moreover have "c \<notin> set (rev post)" using assms by simp
  ultimately have "indexOf (rev (front @ c # post)) c = Some (length (rev post))"
    using indexOf_append [of c "rev post" "rev front"] by simp
  then show ?thesis by (simp add: lastIndexOf_def)
qed

lemma candidate_between:
  assumes "CHR ''{'' \<notin> set pre" "CHR ''}'' \<notin> set post"
  shows "candidate (pre @ [CHR ''{''] @ mid @ [CHR ''}''] @ post) = Some ([CHR ''{''] @ mid @ [CHR ''}''])"
proof -
  let ?text = "pre @ [CHR ''{''] @ mid @ [CHR ''}''] @ post"
  have i: "indexOf ?text (CHR ''{'') = Some (length pre)"
    using indexOf_append [OF assms(1), of "mid @ [CHR ''}''] @ post"] by simp
  have "lastIndexOf ((pre @ [CHR ''{''] @ mid) @ CHR ''}'' # post) (CHR ''}'') =
          Some (length (pre @ [CHR ''{''] @ mid))"
    using assms(2) by (rule lastIndexOf_append)
  then have j: "lastIndexOf ?text (CHR ''}'') = Some (length pre + 1 + length mid)"
    by simp
  have s: "slice ?text (length pre) (length pre + 1 + length mid + 1) = [CHR ''{''] @ mid @ [CHR ''}'']"
    by (simp add: slice_def)
  show ?thesis
    unfolding candidate_def i j using s by simp
qed

text \<open>Every candidate is such a span.\<close>

lemma indexOf_Some:
  "indexOf s c = Some i \<Longrightarrow> \<exists>pre rest. s = pre @ c # rest \<and> c \<notin> set pre \<and> i = length pre"
proof (induction s arbitrary: i)
  case Nil
  then show ?case by simp
next
  case (Cons x xs)
  show ?case
  proof (cases "x = c")
    case True
    with Cons.prems have "x # xs = [] @ c # xs \<and> c \<notin> set [] \<and> i = length ([] :: string)" by simp
    then show ?thesis by blast
  next
    case False
    with Cons.prems obtain j where j: "indexOf xs c = Some j" "i = Suc j" by auto
    from Cons.IH [OF j(1)] obtain pre rest where
      "xs = pre @ c # rest" "c \<notin> set pre" "j = length pre" by blast
    with False j(2) have "x # xs = (x # pre) @ c # rest \<and> c \<notin> set (x # pre) \<and> i = length (x # pre)"
      by simp
    then show ?thesis by blast
  qed
qed

lemma lastIndexOf_Some:
  assumes "lastIndexOf s c = Some j"
  shows "\<exists>front post. s = front @ c # post \<and> c \<notin> set post \<and> j = length front"
proof -
  from assms obtain i where i: "indexOf (rev s) c = Some i" "j = length s - 1 - i"
    by (auto simp: lastIndexOf_def)
  from indexOf_Some [OF i(1)] obtain pre rest where
    p: "rev s = pre @ c # rest" "c \<notin> set pre" "i = length pre" by blast
  from p(1) have "s = rev rest @ c # rev pre"
    by (metis rev_append rev.simps(2) rev_rev_ident append.assoc append_Cons append_Nil)
  moreover from this i(2) p(3) have "j = length (rev rest)" by simp
  moreover have "c \<notin> set (rev pre)" using p(2) by simp
  ultimately show ?thesis by blast
qed

lemma candidate_Some:
  assumes "candidate text = Some c"
  shows "\<exists>pre mid post. text = pre @ [CHR ''{''] @ mid @ [CHR ''}''] @ post \<and>
           CHR ''{'' \<notin> set pre \<and> CHR ''}'' \<notin> set post \<and> c = [CHR ''{''] @ mid @ [CHR ''}'']"
proof -
  from assms obtain i j where
    i: "indexOf text (CHR ''{'') = Some i" and j: "lastIndexOf text (CHR ''}'') = Some j"
    and ij: "i < j" and c: "c = slice text i (j + 1)"
    by (auto simp: candidate_def split: option.splits if_splits)
  from indexOf_Some [OF i] obtain pre rest where
    p: "text = pre @ CHR ''{'' # rest" "CHR ''{'' \<notin> set pre" "i = length pre" by blast
  from lastIndexOf_Some [OF j] obtain front post where
    q: "text = front @ CHR ''}'' # post" "CHR ''}'' \<notin> set post" "j = length front" by blast
  from p(1) q(1) have e: "pre @ CHR ''{'' # rest = front @ CHR ''}'' # post" by simp
  from ij p(3) q(3) have lt: "length pre < length front" by simp
  from e lt obtain us where us: "front = pre @ us" "us \<noteq> []" "CHR ''{'' # rest = us @ CHR ''}'' # post"
    by (auto simp: append_eq_append_conv2)
  then obtain mid where mid: "us = CHR ''{'' # mid" by (cases us) auto
  with us q(1) have t: "text = pre @ [CHR ''{''] @ mid @ [CHR ''}''] @ post" by simp
  have "c = [CHR ''{''] @ mid @ [CHR ''}'']"
    unfolding c t using p(3) q(3) us(1) mid by (simp add: slice_def)
  with t p(2) q(2) show ?thesis by blast
qed

text \<open>
  C4, as amended. Let a text be some prose without \<^verbatim>\<open>{\<close>, then a span that starts
  with \<^verbatim>\<open>{\<close> and ends with \<^verbatim>\<open>}\<close>, then some prose without \<^verbatim>\<open>}\<close> (code
  fences are such prose). The span is the candidate. If the whole text does not parse and
  the span does, \<^verbatim>\<open>extractJson\<close> returns the value of the span; if the whole text
  parses, it returns the value of the whole text.
\<close>

theorem C4_extractJson_between_braces:
  assumes "text = pre @ [CHR ''{''] @ mid @ [CHR ''}''] @ post"
    and "CHR ''{'' \<notin> set pre" and "CHR ''}'' \<notin> set post"
  shows "candidate text = Some ([CHR ''{''] @ mid @ [CHR ''}'']) \<and>
         (JSON_parse rt text = None \<and> JSON_parse rt ([CHR ''{''] @ mid @ [CHR ''}'']) = Some v
            \<longrightarrow> extractJson rt text = v) \<and>
         (JSON_parse rt text = Some w \<longrightarrow> extractJson rt text = w)"
proof -
  have c: "candidate text = Some ([CHR ''{''] @ mid @ [CHR ''}''])"
    unfolding assms(1) using assms(2,3) by (rule candidate_between)
  have ne: "text \<noteq> []" using assms(1) by simp
  show ?thesis using c ne by (simp add: extractJson_def)
qed

theorem C4_extractJson_witness:
  \<open>''Here you go: {"lens_score": "N/A"} Thanks!'' =
     ''Here you go: '' @ [CHR ''{''] @ ''"lens_score": "N/A"'' @ [CHR ''}''] @ '' Thanks!'' \<and>
   CHR ''{'' \<notin> set ''Here you go: '' \<and> CHR ''}'' \<notin> set '' Thanks!'' \<and>
   JSON_parse rt_ref ''Here you go: {"lens_score": "N/A"} Thanks!'' = None \<and>
   JSON_parse rt_ref ([CHR ''{''] @ ''"lens_score": "N/A"'' @ [CHR ''}'']) =
     Some (JObj [(''lens_score'', JStr ''N/A'')]) \<and>
   extractJson rt_ref ''Here you go: {"lens_score": "N/A"} Thanks!'' =
     JObj [(''lens_score'', JStr ''N/A'')]\<close>
proof -
  have t: \<open>''Here you go: {"lens_score": "N/A"} Thanks!'' =
     ''Here you go: '' @ [CHR ''{''] @ ''"lens_score": "N/A"'' @ [CHR ''}''] @ '' Thanks!''\<close>
    by simp
  have p: "CHR ''{'' \<notin> set ''Here you go: ''" by simp
  have q: "CHR ''}'' \<notin> set '' Thanks!''" by simp
  have d: \<open>JSON_parse rt_ref ''Here you go: {"lens_score": "N/A"} Thanks!'' = None\<close>
    by code_simp
  have e: \<open>JSON_parse rt_ref ([CHR ''{''] @ ''"lens_score": "N/A"'' @ [CHR ''}'']) =
     Some (JObj [(''lens_score'', JStr ''N/A'')])\<close>
    by code_simp
  from C4_extractJson_between_braces [OF t p q, of rt_ref "JObj [(''lens_score'', JStr ''N/A'')]"] d e
  have \<open>extractJson rt_ref ''Here you go: {"lens_score": "N/A"} Thanks!'' =
     JObj [(''lens_score'', JStr ''N/A'')]\<close>
    by blast
  with t p q d e show ?thesis by blast
qed

text \<open>
  The claim as stated fails where the whole text parses to something else than the
  object between its braces, as the array \<^verbatim>\<open>[{"a":1}]\<close> does, and where the object
  is only a part of what lies between the first \<^verbatim>\<open>{\<close> and the last \<^verbatim>\<open>}\<close>.
\<close>

theorem C4_counterexample:
  \<open>candidate ''[{"a":1}]'' = Some ''{"a":1}'' \<and>
   JSON_parse rt_ref ''{"a":1}'' = Some (JObj [(''a'', JNum (Fin 1))]) \<and>
   extractJson rt_ref ''[{"a":1}]'' = JArr [JObj [(''a'', JNum (Fin 1))]] \<and>
   extractJson rt_ref ''[{"a":1}]'' \<noteq> JObj [(''a'', JNum (Fin 1))] \<and>
   extractJson rt_ref ''{"a":1} {"b":2}'' = JNull\<close>
  by code_simp

text \<open>
  A reply inside a code fence: \<^verbatim>\<open>extractJson\<close> strips no fence, the whole text does
  not parse, and the candidate gives the object.
\<close>

lemma fenced_reply:
  \<open>respond_output rt_ref
     (''```json'' @ [CHR 0x0A] @
      ''{"vehicle_title":"2019 Toyota Hilux","lens_score":85,"summary":"Solid truck.","market_value_estimate":"$28k-$33k","red_flags":[],"questions_to_ask":["Any accidents?"]}''
      @ [CHR 0x0A] @ ''```'') =
   response 200 (Data hilux_report)\<close>
  by code_simp

text \<open>
  C5. When the whole text does not parse, and there is no candidate or the candidate
  does not parse, \<^verbatim>\<open>extractJson\<close> returns \<^verbatim>\<open>null\<close> and the handler answers 502
  with the first 2000 characters of the text, which is the whole text when it has at
  most 2000.
\<close>

theorem C5_no_json_recovered:
  assumes "JSON_parse rt text = None"
    and "candidate text = None \<or> (\<exists>c. candidate text = Some c \<and> JSON_parse rt c = None)"
  shows "extractJson rt text = JNull \<and>
         respond_output rt text =
           response 502 (Error_raw ''Model returned non-JSON output'' (slice text 0 2000)) \<and>
         slice text 0 2000 = take 2000 text \<and> length (slice text 0 2000) \<le> 2000 \<and>
         (length text \<le> 2000 \<longrightarrow> slice text 0 2000 = text)"
proof -
  have e: "extractJson rt text = JNull"
    using assms by (auto simp: extractJson_def)
  then have "respond_output rt text =
      response 502 (Error_raw ''Model returned non-JSON output'' (slice text 0 2000))"
    by (simp add: respond_output_def)
  with e show ?thesis by (simp add: slice_def)
qed

theorem C5_no_json_recovered_witness:
  \<open>JSON_parse rt_ref ''No JSON here at all.'' = None \<and> candidate ''No JSON here at all.'' = None \<and>
   extractJson rt_ref ''No JSON here at all.'' = JNull \<and>
   respond_output rt_ref ''No JSON here at all.'' =
     response 502 (Error_raw ''Model returned non-JSON output'' ''No JSON here at all.'') \<and>
   JSON_parse rt_ref ''{nope}'' = None \<and> candidate ''{nope}'' = Some ''{nope}'' \<and>
   respond_output rt_ref ''{nope}'' = response 502 (Error_raw ''Model returned non-JSON output'' ''{nope}'')\<close>
proof -
  have a: \<open>JSON_parse rt_ref ''No JSON here at all.'' = None\<close> by code_simp
  have b: \<open>candidate ''No JSON here at all.'' = None\<close> by code_simp
  have c: \<open>JSON_parse rt_ref ''{nope}'' = None\<close> by code_simp
  have d: \<open>candidate ''{nope}'' = Some ''{nope}''\<close> by code_simp
  have l1: \<open>length ''No JSON here at all.'' \<le> 2000\<close> by simp
  have l2: \<open>length ''{nope}'' \<le> 2000\<close> by simp
  from b have b': \<open>candidate ''No JSON here at all.'' = None \<or>
      (\<exists>c. candidate ''No JSON here at all.'' = Some c \<and> JSON_parse rt_ref c = None)\<close>
    by simp
  from c d have d': \<open>candidate ''{nope}'' = None \<or>
      (\<exists>c. candidate ''{nope}'' = Some c \<and> JSON_parse rt_ref c = None)\<close>
    by simp
  from C5_no_json_recovered [OF a b'] l1 C5_no_json_recovered [OF c d'] l2 a b c d
  show ?thesis by simp
qed

section \<open>Replies that are not objects\<close>

lemma cleaned_no_fields:
  assumes "v \<noteq> JNull" "\<forall>kvs. v \<noteq> JObj kvs"
  shows "cleaned rt v = Inr all_defaults"
proof -
  have g: "get_prop v k = Inr None" for k
    using assms by (cases v) simp_all
  show ?thesis
    by (simp add: cleaned_def text_field_def score_field_def list_field_def g js_or_def
        toString_call_def num_or_def clamp_def backfill_def all_defaults_def canned_questions_def)
qed

text \<open>
  C10. A text that parses to a truthy value that is not an object (an array, a number
  other than zero, a non-empty string, \<^verbatim>\<open>true\<close>) is no extraction failure: the block
  runs on the value, finds no field, and the handler answers 200 with the report of all
  defaults. A text that parses to a falsy value is answered 502, as a text without JSON.
\<close>

theorem C10_non_object_values:
  "(text \<noteq> [] \<and> JSON_parse rt text = Some v \<and> truthy (Some v) \<and> (\<forall>kvs. v \<noteq> JObj kvs) \<longrightarrow>
      extractJson rt text = v \<and> cleaned rt v = Inr all_defaults \<and>
      respond_output rt text = response 200 (Data all_defaults)) \<and>
   (JSON_parse rt text = Some v \<and> \<not> truthy (Some v) \<longrightarrow>
      respond_output rt text =
        response 502 (Error_raw ''Model returned non-JSON output'' (slice text 0 2000)))"
proof -
  have a: "extractJson rt text = v \<and> cleaned rt v = Inr all_defaults \<and>
      respond_output rt text = response 200 (Data all_defaults)"
    if "text \<noteq> []" "JSON_parse rt text = Some v" "truthy (Some v)" "\<forall>kvs. v \<noteq> JObj kvs"
  proof -
    have e: "extractJson rt text = v" using that by (simp add: extractJson_def)
    have "v \<noteq> JNull" using that(3) by auto
    then have c: "cleaned rt v = Inr all_defaults" using that(4) by (rule cleaned_no_fields)
    show ?thesis using e c that(3) by (simp add: respond_output_def)
  qed
  have b: "respond_output rt text =
        response 502 (Error_raw ''Model returned non-JSON output'' (slice text 0 2000))"
    if "JSON_parse rt text = Some v" "\<not> truthy (Some v)"
  proof (cases "text = []")
    case True
    then show ?thesis by (simp add: respond_output_def extractJson_def)
  next
    case False
    with that show ?thesis by (simp add: respond_output_def extractJson_def)
  qed
  from a b show ?thesis by blast
qed

theorem C10_non_object_values_witness:
  \<open>JSON_parse rt_ref ''[1]'' = Some (JArr [JNum (Fin 1)]) \<and>
   respond_output rt_ref ''[1]'' = response 200 (Data all_defaults) \<and>
   JSON_parse rt_ref ''7'' = Some (JNum (Fin 7)) \<and>
   respond_output rt_ref ''7'' = response 200 (Data all_defaults) \<and>
   JSON_parse rt_ref ''"abc"'' = Some (JStr ''abc'') \<and>
   respond_output rt_ref ''"abc"'' = response 200 (Data all_defaults) \<and>
   JSON_parse rt_ref ''null'' = Some JNull \<and>
   respond_output rt_ref ''null'' = response 502 (Error_raw ''Model returned non-JSON output'' ''null'') \<and>
   JSON_parse rt_ref ''0'' = Some (JNum (Fin 0)) \<and>
   respond_output rt_ref ''0'' = response 502 (Error_raw ''Model returned non-JSON output'' ''0'') \<and>
   JSON_parse rt_ref ''false'' = Some (JBool False) \<and>
   respond_output rt_ref ''false'' = response 502 (Error_raw ''Model returned non-JSON output'' ''false'') \<and>
   JSON_parse rt_ref ''""'' = Some (JStr []) \<and>
   respond_output rt_ref ''""'' = response 502 (Error_raw ''Model returned non-JSON output'' ''""'')\<close>
proof -
  have p1: \<open>JSON_parse rt_ref ''[1]'' = Some (JArr [JNum (Fin 1)])\<close> by code_simp
  have p2: \<open>JSON_parse rt_ref ''7'' = Some (JNum (Fin 7))\<close> by code_simp
  have p3: \<open>JSON_parse rt_ref ''"abc"'' = Some (JStr ''abc'')\<close> by code_simp
  have p4: \<open>JSON_parse rt_ref ''null'' = Some JNull\<close> by code_simp
  have p5: \<open>JSON_parse rt_ref ''0'' = Some (JNum (Fin 0))\<close> by code_simp
  have p6: \<open>JSON_parse rt_ref ''false'' = Some (JBool False)\<close> by code_simp
  have p7: \<open>JSON_parse rt_ref ''""'' = Some (JStr [])\<close> by code_simp
  have r1: \<open>respond_output rt_ref ''[1]'' = response 200 (Data all_defaults)\<close>
    using C10_non_object_values [of "''[1]''" rt_ref "JArr [JNum (Fin 1)]"] p1 by simp
  have r2: \<open>respond_output rt_ref ''7'' = response 200 (Data all_defaults)\<close>
    using C10_non_object_values [of "''7''" rt_ref "JNum (Fin 7)"] p2 by simp
  have r3: \<open>respond_output rt_ref ''"abc"'' = response 200 (Data all_defaults)\<close>
    using C10_non_object_values [of \<open>''"abc"''\<close> rt_ref "JStr ''abc''"] p3 by simp
  have r4: \<open>respond_output rt_ref ''null'' =
      response 502 (Error_raw ''Model returned non-JSON output'' ''null'')\<close>
    using C10_non_object_values [of "''null''" rt_ref JNull] p4 by (simp add: slice_def)
  have r5: \<open>respond_output rt_ref ''0'' =
      response 502 (Error_raw ''Model returned non-JSON output'' ''0'')\<close>
    using C10_non_object_values [of "''0''" rt_ref "JNum (Fin 0)"] p5 by (simp add: slice_def)
  have r6: \<open>respond_output rt_ref ''false'' =
      response 502 (Error_raw ''Model returned non-JSON output'' ''false'')\<close>
    using C10_non_object_values [of "''false''" rt_ref "JBool False"] p6 by (simp add: slice_def)
  have r7: \<open>respond_output rt_ref ''""'' =
      response 502 (Error_raw ''Model returned non-JSON output'' ''""'')\<close>
    using C10_non_object_values [of \<open>''""''\<close> rt_ref "JStr []"] p7 by (simp add: slice_def)
  show ?thesis using p1 p2 p3 p4 p5 p6 p7 r1 r2 r3 r4 r5 r6 r7 by blast
qed

section \<open>Validation of the images\<close>

lemma size_guard_rejects:
  "list_ex (\<lambda>x. case x of JStr s \<Rightarrow> length s > 12000000 | _ \<Rightarrow> True) imgs \<Longrightarrow>
     \<exists>r. size_guard imgs = Inl r \<and> invalid_input r"
proof (induction imgs)
  case Nil
  then show ?case by simp
next
  case (Cons x xs)
  show ?case
  proof (cases x)
    case (JStr s)
    show ?thesis
    proof (cases "length s > 12000000")
      case True
      with JStr show ?thesis by (simp add: invalid_input_def response_def)
    next
      case False
      with JStr Cons.prems have "list_ex (\<lambda>x. case x of JStr s \<Rightarrow> length s > 12000000 | _ \<Rightarrow> True) xs"
        by simp
      from Cons.IH [OF this] obtain r where "size_guard xs = Inl r" "invalid_input r" by blast
      with JStr False show ?thesis by simp
    qed
  qed (simp_all add: invalid_input_def response_def)
qed

lemma size_guard_accepts:
  "\<not> list_ex (\<lambda>x. case x of JStr s \<Rightarrow> length s > 12000000 | _ \<Rightarrow> True) imgs \<Longrightarrow>
     \<exists>ss. size_guard imgs = Inr ss \<and> imgs = map JStr ss"
proof (induction imgs)
  case Nil
  then show ?case by simp
next
  case (Cons x xs)
  then obtain s where x: "x = JStr s" and s: "\<not> length s > 12000000"
    by (cases x) auto
  from Cons obtain ss where "size_guard xs = Inr ss" "xs = map JStr ss" by auto
  with x s have "size_guard (x # xs) = Inr (s # ss) \<and> x # xs = map JStr (s # ss)" by simp
  then show ?case by (rule exI)
qed

text \<open>
  C8, as amended. In the multi-image Netlify handler, a request that passes the method,
  key and body checks and whose \<^verbatim>\<open>imagesBase64\<close> is an empty array, an array of more
  than 4 elements, or an array with an element that is not a string or is longer than
  12,000,000 characters, is answered 400 or 413 and the provider is not called.
\<close>

theorem C8_multi_rejects_before_gateway:
  assumes "parse_payload rt key ''Missing OPENAI_API_KEY'' ev = Inr payload"
    and "get_prop payload ''imagesBase64'' = Inr (Some (JArr imgs))"
    and "rejected_images imgs"
  shows "gateway_calls (handler_multi rt gw key ev) = [] \<and>
         (\<exists>r. outcome (handler_multi rt gw key ev) = Inr r \<and> invalid_input r)"
proof (cases "imgs = [] \<or> length imgs > 4")
  case True
  then show ?thesis
    using assms(1,2)
    by (auto simp: handler_multi_def no_call_def invalid_input_def response_def)
next
  case False
  with assms(3) have "list_ex (\<lambda>x. case x of JStr s \<Rightarrow> length s > 12000000 | _ \<Rightarrow> True) imgs"
    by (simp add: rejected_images_def)
  then obtain r where r: "size_guard imgs = Inl r" "invalid_input r"
    using size_guard_rejects by blast
  with False assms(1,2) show ?thesis
    by (simp add: handler_multi_def no_call_def)
qed

theorem C8_multi_rejects_witness:
  \<open>parse_payload rt_ref (Some ''k'') ''Missing OPENAI_API_KEY''
     \<lparr> httpMethod = ''POST'', event_body = Some ''{"imagesBase64":["a","b","c","d","e"]}'' \<rparr> =
     Inr (JObj [(''imagesBase64'', JArr [JStr ''a'', JStr ''b'', JStr ''c'', JStr ''d'', JStr ''e''])]) \<and>
   rejected_images [JStr ''a'', JStr ''b'', JStr ''c'', JStr ''d'', JStr ''e''] \<and>
   gateway_calls (handler_multi rt_ref gateway_sample (Some ''k'')
     \<lparr> httpMethod = ''POST'', event_body = Some ''{"imagesBase64":["a","b","c","d","e"]}'' \<rparr>) = [] \<and>
   outcome (handler_multi rt_ref gateway_sample (Some ''k'')
     \<lparr> httpMethod = ''POST'', event_body = Some ''{"imagesBase64":["a","b","c","d","e"]}'' \<rparr>) =
     Inr (response 400 (Error_only ''Maximum 4 images allowed''))\<close>
proof -
  let ?ev = \<open>\<lparr> httpMethod = ''POST'', event_body = Some ''{"imagesBase64":["a","b","c","d","e"]}'' \<rparr>\<close>
  let ?imgs = "[JStr ''a'', JStr ''b'', JStr ''c'', JStr ''d'', JStr ''e'']"
  have p: "parse_payload rt_ref (Some ''k'') ''Missing OPENAI_API_KEY'' ?ev =
             Inr (JObj [(''imagesBase64'', JArr ?imgs)])"
    by code_simp
  have g: "get_prop (JObj [(''imagesBase64'', JArr ?imgs)]) ''imagesBase64'' = Inr (Some (JArr ?imgs))"
    by (simp add: own_property_def)
  have b: "rejected_images ?imgs" by (simp add: rejected_images_def)
  have o: "outcome (handler_multi rt_ref gateway_sample (Some ''k'') ?ev) =
             Inr (response 400 (Error_only ''Maximum 4 images allowed''))"
    by code_simp
  from C8_multi_rejects_before_gateway [OF p g b, of gateway_sample]
  have "gateway_calls (handler_multi rt_ref gateway_sample (Some ''k'') ?ev) = []" by blast
  with p b o show ?thesis by blast
qed

text \<open>An accepted sequence is sent to the provider whole, in one call.\<close>

lemma multi_accepts:
  assumes "parse_payload rt key ''Missing OPENAI_API_KEY'' ev = Inr payload"
    and "get_prop payload ''imagesBase64'' = Inr (Some (JArr imgs))"
    and "\<not> rejected_images imgs"
  shows "\<exists>ss. imgs = map JStr ss \<and>
           gateway_calls (handler_multi rt gw key ev) = [map (\<lambda>b64. ''data:image/jpeg;base64,'' @ b64) ss]"
proof -
  from assms(3) have ne: "imgs \<noteq> []" "\<not> length imgs > 4"
    and ok: "\<not> list_ex (\<lambda>x. case x of JStr s \<Rightarrow> length s > 12000000 | _ \<Rightarrow> True) imgs"
    by (simp_all add: rejected_images_def)
  from size_guard_accepts [OF ok] obtain ss where ss: "size_guard imgs = Inr ss" "imgs = map JStr ss"
    by blast
  have "gateway_calls (handler_multi rt gw key ev) = [map (\<lambda>b64. ''data:image/jpeg;base64,'' @ b64) ss]"
    using assms(1,2) ne ss(1) by (simp add: handler_multi_def call_model_def)
  with ss(2) show ?thesis by blast
qed

text \<open>
  The claim as stated, for every request, fails on the Firebase callable, which checks
  nothing about the images: five images are sent to the provider.
\<close>

theorem C8_counterexample:
  "rejected_images [JStr ''a'', JStr ''b'', JStr ''c'', JStr ''d'', JStr ''e''] \<and>
   analyzeListing rt_ref gemini_sample
       (JObj [(''images'', JArr [JStr ''a'', JStr ''b'', JStr ''c'', JStr ''d'', JStr ''e''])]) =
     \<lparr> result = Returned (JObj []),
       model_calls = [ [JStr ''a'', JStr ''b'', JStr ''c'', JStr ''d'', JStr ''e''] ] \<rparr>"
  by code_simp

section \<open>What a successful response carries\<close>

lemma respond_output_sound: "sound_success (respond_output rt t)"
  by (auto simp: respond_output_def sound_success_def response_def Let_def cleaned_bounds
      split: sum.splits)

lemma call_model_sound:
  "outcome (call_model rt gw urls) = Inr resp \<Longrightarrow> sound_success resp"
proof (cases "gw urls")
  case (Inl e)
  assume "outcome (call_model rt gw urls) = Inr resp"
  with Inl have "resp = response 500 (Error_message ''Analysis failed'' e)"
    by (simp add: call_model_def)
  then show ?thesis by (simp add: sound_success_def response_def)
next
  case (Inr t)
  assume "outcome (call_model rt gw urls) = Inr resp"
  with Inr have "resp = respond_output rt (case t of None \<Rightarrow> [] | Some x \<Rightarrow> x)"
    by (simp add: call_model_def)
  then show ?thesis by (simp add: respond_output_sound)
qed

lemma parse_payload_sound: "parse_payload rt key m ev = Inl r \<Longrightarrow> sound_success r"
  by (auto simp: parse_payload_def sound_success_def response_def split: if_splits option.splits)

lemma error_only_sound: "c \<noteq> 200 \<Longrightarrow> sound_success (response c (Error_only m))"
  by (simp add: sound_success_def response_def)

lemma size_guard_sound: "size_guard imgs = Inl r \<Longrightarrow> sound_success r"
proof (induction imgs)
  case Nil
  then show ?case by simp
next
  case (Cons x xs)
  then show ?case
    by (cases x) (auto simp: error_only_sound split: sum.splits if_splits)
qed

lemma handler_multi_sound:
  assumes "outcome (handler_multi rt gw key ev) = Inr resp"
  shows "sound_success resp"
proof (cases "parse_payload rt key ''Missing OPENAI_API_KEY'' ev")
  case (Inl r)
  with assms show ?thesis
    by (auto simp: handler_multi_def no_call_def dest: parse_payload_sound)
next
  case (Inr payload)
  note p = Inr
  show ?thesis
  proof (cases "get_prop payload ''imagesBase64''")
    case (Inl e)
    with p assms show ?thesis by (simp add: handler_multi_def no_call_def)
  next
    case (Inr v)
    show ?thesis
    proof (cases "\<exists>imgs. v = Some (JArr imgs)")
      case False
      then have "outcome (handler_multi rt gw key ev) =
          Inr (response 400 (Error_only ''imagesBase64 must be a non-empty array''))"
        using p Inr
        by (cases v; cases "the v") (auto simp: handler_multi_def no_call_def)
      with assms show ?thesis by (auto simp: error_only_sound)
    next
      case True
      then obtain imgs where v: "v = Some (JArr imgs)" by blast
      show ?thesis
      proof (cases "size_guard imgs")
        case (Inl r)
        with assms p Inr v show ?thesis
          by (auto simp: handler_multi_def no_call_def error_only_sound
              dest: size_guard_sound split: if_splits)
      next
        case (Inr ss)
        with assms p \<open>get_prop payload ''imagesBase64'' = Inr v\<close> v show ?thesis
          by (auto simp: handler_multi_def no_call_def error_only_sound
              dest: call_model_sound split: if_splits)
      qed
    qed
  qed
qed

lemma handler_single_sound:
  assumes "outcome (handler_single rt gw key ev) = Inr resp"
  shows "sound_success resp"
proof (cases "parse_payload rt key ''Missing OPENAI_API_KEY in environment variables'' ev")
  case (Inl r)
  with assms show ?thesis
    by (auto simp: handler_single_def no_call_def dest: parse_payload_sound)
next
  case (Inr payload)
  note p = Inr
  show ?thesis
  proof (cases "get_prop payload ''imageBase64''")
    case (Inl e)
    with p assms show ?thesis by (simp add: handler_single_def no_call_def)
  next
    case (Inr ib)
    note i = Inr
    show ?thesis
    proof (cases "get_prop payload ''mimeType''")
      case (Inl e)
      with p i assms show ?thesis by (simp add: handler_single_def no_call_def)
    next
      case (Inr mt)
      note m = Inr
      show ?thesis
      proof (cases "\<exists>img. ib = Some (JStr img)")
        case False
        then have "outcome (handler_single rt gw key ev) =
            Inr (response 400 (Error_only ''imageBase64 is required''))"
          using p i m
          by (cases ib; cases "the ib") (auto simp: handler_single_def no_call_def)
        with assms show ?thesis by (auto simp: error_only_sound)
      next
        case True
        then obtain img where img: "ib = Some (JStr img)" by blast
        show ?thesis
        proof (cases "ToString rt (js_or mt (JStr ''image/jpeg''))")
          case (Inl e)
          with assms p i m img show ?thesis
            by (auto simp: handler_single_def no_call_def error_only_sound split: if_splits)
        next
          case (Inr ms)
          with assms p i m img show ?thesis
            by (auto simp: handler_single_def no_call_def error_only_sound
                dest: call_model_sound split: if_splits)
        qed
      qed
    qed
  qed
qed

text \<open>
  C9, as amended. Every response of the two Netlify handlers that carries a report has
  status 200 and a report within the bounds of the block: title of at most 120
  characters, score between 0 and 100, summary of at most 500, estimate of at most 80,
  at most 8 red flags, 3 to 8 questions. Status 200 comes with nothing else than a report
  or the answer to the preflight.
\<close>

theorem C9_netlify_reports_bounded:
  "(outcome (handler_single rt gw key ev) = Inr resp \<longrightarrow> sound_success resp) \<and>
   (outcome (handler_multi rt gw key ev) = Inr resp \<longrightarrow> sound_success resp)"
  using handler_single_sound handler_multi_sound by blast

theorem C9_netlify_reports_witness:
  \<open>outcome (handler_multi rt_ref gateway_sample (Some ''k'')
      \<lparr> httpMethod = ''POST'', event_body = Some ''{"imagesBase64":["a","b"]}'' \<rparr>) =
     Inr (response 200 (Data all_defaults)) \<and>
   outcome (handler_single rt_ref gateway_sample (Some ''k'')
      \<lparr> httpMethod = ''POST'', event_body = Some ''{"imageBase64":"a"}'' \<rparr>) =
     Inr (response 200 (Data all_defaults)) \<and>
   sound_success (response 200 (Data all_defaults)) \<and> report_bounds all_defaults\<close>
proof -
  let ?evm = \<open>\<lparr> httpMethod = ''POST'', event_body = Some ''{"imagesBase64":["a","b"]}'' \<rparr>\<close>
  let ?evs = \<open>\<lparr> httpMethod = ''POST'', event_body = Some ''{"imageBase64":"a"}'' \<rparr>\<close>
  have r: "respond_output rt_ref ''{}'' = response 200 (Data all_defaults)"
    by code_simp
  have pm: "parse_payload rt_ref (Some ''k'') ''Missing OPENAI_API_KEY'' ?evm =
              Inr (JObj [(''imagesBase64'', JArr [JStr ''a'', JStr ''b''])])"
    by code_simp
  have ps: "parse_payload rt_ref (Some ''k'') ''Missing OPENAI_API_KEY in environment variables'' ?evs =
              Inr (JObj [(''imageBase64'', JStr ''a'')])"
    by code_simp
  have m: "outcome (handler_multi rt_ref gateway_sample (Some ''k'') ?evm) =
             Inr (response 200 (Data all_defaults))"
    using pm r by (simp add: handler_multi_def own_property_def call_model_def gateway_sample_def)
  have s: "outcome (handler_single rt_ref gateway_sample (Some ''k'') ?evs) =
             Inr (response 200 (Data all_defaults))"
    using ps r
    by (simp add: handler_single_def own_property_def call_model_def gateway_sample_def js_or_def)
  from C9_netlify_reports_bounded [of rt_ref gateway_sample "Some ''k''" ?evm
      "response 200 (Data all_defaults)"] m
  have a: "sound_success (response 200 (Data all_defaults))" by simp
  then have "report_bounds all_defaults" by (simp add: sound_success_def response_def)
  with m s a show ?thesis by blast
qed

text \<open>
  The claim as stated fails on the Firebase callable, which returns whatever the reply
  parses to, and on the invariants of the table that the block does not enforce: a
  title may be empty.
\<close>

theorem C9_counterexample:
  \<open>analyzeListing rt_ref gemini_sample (JObj [(''imageBase64'', JStr ''a'')]) =
     \<lparr> result = Returned (JObj []), model_calls = [ [JStr ''a''] ] \<rparr> \<and>
   \<not> table_invariants (JObj []) \<and>
   respond_output rt_ref ''{"vehicle_title":[]}'' =
     response 200 (Data (all_defaults \<lparr> vehicle_title := [] \<rparr>)) \<and>
   \<not> table_invariants (report_json (all_defaults \<lparr> vehicle_title := [] \<rparr>))\<close>
  by code_simp

end
